theory Spec2Isabelle
  imports Complex_Main
begin

section \<open>Conventions\<close>

text \<open>
  The two programs compute with Python floats. The specification's data model gives every
  position, velocity, radius and mass as a real number, and the development follows it:
  a float is modelled as a \<^typ>\<open>real\<close>, so rounding, overflow and NaN are outside the model.
  A float division by zero and the square root of a negative number raise in Python; both
  are kept, as values of \<open>py_error\<close>, and a function that can raise returns
  \<open>py_error + 'a\<close>.

  Record fields carry a prefix (\<open>bh_\<close> for bh.py, \<open>p_\<close> and \<open>e_\<close> for e.py), since a field
  named \<open>x\<close> or \<open>dt\<close> would capture every variable of that name.
\<close>

datatype py_error = ZeroDivisionError | ValueError

text \<open>\<open>math.hypot\<close>.\<close>

definition hypot :: "real \<Rightarrow> real \<Rightarrow> real" where
  "hypot a b = sqrt (a * a + b * b)"

section \<open>bh.py: the central attractor\<close>

definition BH_WIDTH :: real where "BH_WIDTH = 1000"
definition BH_HEIGHT :: real where "BH_HEIGHT = 700"
definition FPS :: real where "FPS = 60"
definition G :: real where "G = 10"
definition PARTICLE_COLOR :: "nat \<times> nat \<times> nat" where "PARTICLE_COLOR = (200, 220, 255)"

text \<open>The local constant \<open>soft\<close> of \<open>compute_acceleration\<close>, the softening length.\<close>

definition soft :: real where "soft = 6"

record bh_particle =
  bh_x :: real
  bh_y :: real
  bh_vx :: real
  bh_vy :: real
  bh_color :: "nat \<times> nat \<times> nat"
  bh_trail :: "(real \<times> real) list"

text \<open>
  The state of \<open>BlackHoleSim\<close> without its window and clock. \<open>bh_random\<close> is the state of
  the module \<open>random\<close>: the outputs \<open>random.random()\<close> is still to give, the next one at
  index 0.
\<close>

record bh_sim =
  bh_width :: real
  bh_height :: real
  bh_M :: real
  bh_particles :: "bh_particle list"
  bh_running :: bool
  bh_paused :: bool
  bh_base_dt :: real
  bh_speed_mult :: real
  bh_dt :: real
  bh_trail_length :: nat
  bh_dragging :: bool
  bh_drag_start :: "(int \<times> int) option"
  bh_drag_button :: "nat option"
  bh_show_trails :: bool
  bh_random :: "nat \<Rightarrow> real"

text \<open>\<open>BlackHoleSim.__init__\<close>, for a generator state \<open>g\<close>.\<close>

definition bh_init :: "(nat \<Rightarrow> real) \<Rightarrow> bh_sim" where
  "bh_init g =
     \<lparr> bh_width = BH_WIDTH, bh_height = BH_HEIGHT, bh_M = 40, bh_particles = [],
       bh_running = True, bh_paused = False, bh_base_dt = 1 / FPS, bh_speed_mult = 1,
       bh_dt = (1 / FPS) * 1, bh_trail_length = 30, bh_dragging = False,
       bh_drag_start = None, bh_drag_button = None, bh_show_trails = True,
       bh_random = g \<rparr>"

definition schwarzschild_radius :: "bh_sim \<Rightarrow> real" where
  "schwarzschild_radius s = 2 * bh_M s"

definition center :: "bh_sim \<Rightarrow> real \<times> real" where
  "center s = (bh_width s / 2, bh_height s / 2)"

text \<open>
  \<open>compute_acceleration\<close>. The source assigns \<open>ax\<close> and \<open>ay\<close> twice; the first pair, from
  \<open>a_mag\<close>, is overwritten before it is read, and the model keeps both.
\<close>

definition compute_acceleration :: "bh_sim \<Rightarrow> real \<Rightarrow> real \<Rightarrow> real \<times> real" where
  "compute_acceleration s px py =
     (let (cx, cy) = center s;
          dx = px - cx;
          dy = py - cy;
          r = hypot dx dy
      in if r = 0 then (0, 0)
         else
           let denom = (r * r + soft * soft) powr 1.5;
               a_mag = - G * bh_M s / denom * (if r \<noteq> 0 then r else 1);
               ax = a_mag * dx;
               ay = a_mag * dy;
               ax = - G * bh_M s * dx / denom;
               ay = - G * bh_M s * dy / denom
           in (ax, ay))"

text \<open>The body of the loop of \<open>step\<close>, up to the trail (lines 135 to 145).\<close>

definition advance :: "bh_sim \<Rightarrow> bh_particle \<Rightarrow> bh_particle" where
  "advance s p =
     (let (ax, ay) = compute_acceleration s (bh_x p) (bh_y p);
          p = p\<lparr>bh_vx := bh_vx p + ax * bh_dt s\<rparr>;
          p = p\<lparr>bh_vy := bh_vy p + ay * bh_dt s\<rparr>;
          p = p\<lparr>bh_x := bh_x p + bh_vx p * bh_dt s\<rparr>;
          p = p\<lparr>bh_y := bh_y p + bh_vy p * bh_dt s\<rparr>;
          p = p\<lparr>bh_trail := bh_trail p @ [(bh_x p, bh_y p)]\<rparr>
      in if length (bh_trail p) > bh_trail_length s
         then p\<lparr>bh_trail := tl (bh_trail p)\<rparr> else p)"

text \<open>The capture test of \<open>step\<close> (line 147), on a particle already advanced.\<close>

definition captured :: "bh_sim \<Rightarrow> bh_particle \<Rightarrow> bool" where
  "captured s p =
     (let r_s = schwarzschild_radius s; (cx, cy) = center s
      in hypot (bh_x p - cx) (bh_y p - cy) \<le> r_s)"

text \<open>
  The first loop of \<open>step\<close>: the particles as it leaves them, and the list \<open>remove\<close> it
  collects, in the order of the appends.
\<close>

fun step_loop :: "bh_sim \<Rightarrow> bh_particle list \<Rightarrow> bh_particle list \<times> bh_particle list" where
  "step_loop s [] = ([], [])"
| "step_loop s (p # ps) =
     (let q = advance s p;
          (qs, remove) = step_loop s ps
      in (q # qs, if captured s q then q # remove else remove))"

text \<open>
  \<open>step\<close>. The second loop calls \<open>list.remove\<close> once for each collected particle; the
  class defines no \<open>__eq__\<close>, so Python removes that very object, and \<open>remove1\<close> removes the
  first particle equal to it.
\<close>

definition step :: "bh_sim \<Rightarrow> bh_sim" where
  "step s =
     (let (ps, remove) = step_loop s (bh_particles s)
      in s\<lparr>bh_particles := fold remove1 remove ps\<rparr>)"

subsection \<open>Commands\<close>

definition add_particle :: "bh_sim \<Rightarrow> real \<Rightarrow> real \<Rightarrow> real \<Rightarrow> real \<Rightarrow> bh_sim" where
  "add_particle s x y vx vy =
     s\<lparr>bh_particles := bh_particles s @
        [\<lparr>bh_x = x, bh_y = y, bh_vx = vx, bh_vy = vy, bh_color = PARTICLE_COLOR,
          bh_trail = []\<rparr>]\<rparr>"

text \<open>\<open>random.uniform(a, b)\<close>, which is \<open>a + (b - a) * random()\<close>, on the state's generator.\<close>

definition uniform :: "real \<Rightarrow> real \<Rightarrow> bh_sim \<Rightarrow> real \<times> bh_sim" where
  "uniform a b s =
     (a + (b - a) * bh_random s 0, s\<lparr>bh_random := (\<lambda>i. bh_random s (Suc i))\<rparr>)"

text \<open>One pass of the loop of \<open>spawn_random_cloud\<close>; \<open>math.sqrt\<close> raises below zero.\<close>

definition spawn_one :: "real \<Rightarrow> real \<Rightarrow> real \<Rightarrow> real \<Rightarrow> bh_sim \<Rightarrow> py_error + bh_sim" where
  "spawn_one cx cy radius_min radius_max s =
     (let (r, s) = uniform radius_min radius_max s;
          (theta, s) = uniform 0 (2 * pi) s;
          x = cx + r * cos theta;
          y = cy + r * sin theta
      in if G * bh_M s / max r 0.001 < 0 then Inl ValueError
         else
           let v_circ = sqrt (G * bh_M s / max r 0.001);
               (u, s) = uniform 0.8 1.2 s;
               vx = - v_circ * sin theta * u;
               (u, s) = uniform 0.8 1.2 s;
               vy = v_circ * cos theta * u;
               (u, s) = uniform (- 0.05) 0.05 s;
               vx = vx + u * v_circ;
               (u, s) = uniform (- 0.05) 0.05 s;
               vy = vy + u * v_circ
           in Inr (add_particle s x y vx vy))"

fun spawn_loop :: "nat \<Rightarrow> real \<Rightarrow> real \<Rightarrow> real \<Rightarrow> real \<Rightarrow> bh_sim \<Rightarrow> py_error + bh_sim" where
  "spawn_loop 0 cx cy radius_min radius_max s = Inr s"
| "spawn_loop (Suc k) cx cy radius_min radius_max s =
     (case spawn_one cx cy radius_min radius_max s of
        Inl err \<Rightarrow> Inl err
      | Inr s' \<Rightarrow> spawn_loop k cx cy radius_min radius_max s')"

definition spawn_random_cloud :: "nat \<Rightarrow> real \<Rightarrow> real \<Rightarrow> bh_sim \<Rightarrow> py_error + bh_sim" where
  "spawn_random_cloud n radius_min radius_max s =
     (let (cx, cy) = center s in spawn_loop n cx cy radius_min radius_max s)"

text \<open>
  The events \<open>run\<close> reads: a key press with the state of the shift key, a mouse button
  pressed at a pixel with its number, a mouse button released at a pixel.
\<close>

datatype key =
    K_ESCAPE | K_SPACE | K_c | K_r | K_UP | K_DOWN | K_RIGHTBRACKET | K_LEFTBRACKET
  | K_n | K_t | K_other

datatype event =
    QUIT | KEYDOWN key bool | MOUSEBUTTONDOWN "int \<times> int" nat | MOUSEBUTTONUP "int \<times> int"
  | OTHER

text \<open>The \<open>KEYDOWN\<close> branch of \<open>run\<close>.\<close>

fun keydown :: "key \<Rightarrow> bool \<Rightarrow> bh_sim \<Rightarrow> py_error + bh_sim" where
  "keydown K_ESCAPE shift s = Inr (s\<lparr>bh_running := False\<rparr>)"
| "keydown K_SPACE shift s = Inr (s\<lparr>bh_paused := \<not> bh_paused s\<rparr>)"
| "keydown K_c shift s = Inr (s\<lparr>bh_particles := []\<rparr>)"
| "keydown K_r shift s = spawn_random_cloud 60 120 320 s"
| "keydown K_UP shift s =
     Inr (if shift then s\<lparr>bh_M := bh_M s * 1.5\<rparr> else s\<lparr>bh_M := bh_M s * 1.1\<rparr>)"
| "keydown K_DOWN shift s =
     Inr (if shift then s\<lparr>bh_M := max 1 (bh_M s / 1.5)\<rparr>
          else s\<lparr>bh_M := max 1 (bh_M s * 0.9)\<rparr>)"
| "keydown K_RIGHTBRACKET shift s =
     (let s = s\<lparr>bh_speed_mult := bh_speed_mult s * 2\<rparr>
      in Inr (s\<lparr>bh_dt := bh_base_dt s * bh_speed_mult s\<rparr>))"
| "keydown K_LEFTBRACKET shift s =
     (let s = s\<lparr>bh_speed_mult := max 0.125 (bh_speed_mult s / 2)\<rparr>
      in Inr (s\<lparr>bh_dt := bh_base_dt s * bh_speed_mult s\<rparr>))"
| "keydown K_n shift s = Inr (if bh_paused s then step s else s)"
| "keydown K_t shift s = Inr (s\<lparr>bh_show_trails := \<not> bh_show_trails s\<rparr>)"
| "keydown K_other shift s = Inr s"

text \<open>The \<open>MOUSEBUTTONUP\<close> branch of \<open>run\<close>, after its guard on the dragging state.\<close>

definition mouse_release :: "int \<times> int \<Rightarrow> int \<times> int \<Rightarrow> bh_sim \<Rightarrow> py_error + bh_sim" where
  "mouse_release pos start s =
     (let (mx, my) = pos;
          (sx, sy) = start;
          dx = real_of_int (mx - sx);
          dy = real_of_int (my - sy);
          dist = hypot dx dy;
          reset = (\<lambda>s. s\<lparr>bh_dragging := False, bh_drag_start := None, bh_drag_button := None\<rparr>)
      in if dist > 6 then
           let fling_scale = 0.06;
               vx = dx * fling_scale;
               vy = dy * fling_scale
           in Inr (reset (add_particle s (real_of_int sx) (real_of_int sy) vx vy))
         else if bh_drag_button s = Some 1 then
           let (cx, cy) = center s;
               dx_c = real_of_int sx - cx;
               dy_c = real_of_int sy - cy;
               r = hypot dx_c dy_c
           in if r \<ge> 5 then
                if G * bh_M s / max r 0.001 < 0 then Inl ValueError
                else
                  let v_circ = sqrt (G * bh_M s / max r 0.001);
                      vx = - v_circ * dy_c / r;
                      vy = v_circ * dx_c / r;
                      (u, s) = uniform 0.95 1.05 s;
                      vx = vx * u;
                      (u, s) = uniform 0.95 1.05 s;
                      vy = vy * u
                  in Inr (reset (add_particle s (real_of_int sx) (real_of_int sy) vx vy))
              else Inr (reset s)
         else if bh_drag_button s = Some 3 then
           let (vx, s) = uniform (- 0.6) 0.6 s;
               (vy, s) = uniform (- 0.6) 0.6 s
           in Inr (reset (add_particle s (real_of_int sx) (real_of_int sy) vx vy))
         else Inr (reset s))"

text \<open>One event of the loop over \<open>pygame.event.get()\<close>.\<close>

fun handle_event :: "event \<Rightarrow> bh_sim \<Rightarrow> py_error + bh_sim" where
  "handle_event QUIT s = Inr (s\<lparr>bh_running := False\<rparr>)"
| "handle_event (KEYDOWN k shift) s = keydown k shift s"
| "handle_event (MOUSEBUTTONDOWN pos button) s =
     Inr (s\<lparr>bh_dragging := True, bh_drag_start := Some pos, bh_drag_button := Some button\<rparr>)"
| "handle_event (MOUSEBUTTONUP pos) s =
     (if \<not> bh_dragging s then Inr s
      else case bh_drag_start s of
             None \<Rightarrow> Inr s
           | Some start \<Rightarrow> mouse_release pos start s)"
| "handle_event OTHER s = Inr s"

fun handle_events :: "event list \<Rightarrow> bh_sim \<Rightarrow> py_error + bh_sim" where
  "handle_events [] s = Inr s"
| "handle_events (ev # evs) s =
     (case handle_event ev s of Inl err \<Rightarrow> Inl err | Inr s' \<Rightarrow> handle_events evs s')"

text \<open>
  One pass of the \<open>while\<close> loop of \<open>run\<close> on the events of that frame, without the drawing:
  the events, the time step, the tick unless paused.
\<close>

definition frame :: "event list \<Rightarrow> bh_sim \<Rightarrow> py_error + bh_sim" where
  "frame evs s =
     (case handle_events evs s of
        Inl err \<Rightarrow> Inl err
      | Inr s \<Rightarrow>
          let s = s\<lparr>bh_dt := bh_base_dt s * bh_speed_mult s\<rparr>
          in Inr (if \<not> bh_paused s then step s else s))"

text \<open>
  The states \<open>run\<close> can be in between two frames: it starts from \<open>__init__\<close> and a cloud
  of 80 particles, and goes on frame by frame while \<open>running\<close> holds.
\<close>

inductive reachable :: "bh_sim \<Rightarrow> bool" where
  start: "spawn_random_cloud 80 120 320 (bh_init g) = Inr s \<Longrightarrow> reachable s"
| next_frame: "reachable s \<Longrightarrow> bh_running s \<Longrightarrow> frame evs s = Inr s' \<Longrightarrow> reachable s'"

code_pred reachable .

section \<open>e.py: particles in a box\<close>

definition WIDTH :: real where "WIDTH = 800"
definition HEIGHT :: real where "HEIGHT = 600"
definition GRAVITY :: real where "GRAVITY = 200"
definition FRICTION :: real where "FRICTION = 1"

text \<open>The local constant \<open>e\<close> of \<open>_resolve_collisions\<close>, the restitution.\<close>

definition restitution :: real where "restitution = 0.95"

text \<open>The dataclass \<open>Particle\<close>, without the canvas handle \<open>_id\<close>.\<close>

record particle =
  p_x :: real
  p_y :: real
  p_vx :: real
  p_vy :: real
  p_r :: real
  p_m :: real
  p_color :: string

text \<open>The state of \<open>Simulation\<close> without its window and canvas.\<close>

record e_sim =
  e_particles :: "particle list"
  e_running :: bool
  e_speed :: real
  e_dt :: real

text \<open>\<open>Simulation.__init__\<close>, for the particles \<open>_init_particles\<close> has placed.\<close>

definition e_init :: "particle list \<Rightarrow> e_sim" where
  "e_init ps = \<lparr> e_particles = ps, e_running = True, e_speed = 1, e_dt = 0.016 \<rparr>"

text \<open>\<open>_overlap\<close>, the test \<open>_init_particles\<close> places particles with.\<close>

definition overlap_test :: "particle \<Rightarrow> particle \<Rightarrow> bool" where
  "overlap_test a b =
     (let dx = p_x a - p_x b;
          dy = p_y a - p_y b
      in dx * dx + dy * dy < (p_r a + p_r b)\<^sup>2)"

definition toggle :: "e_sim \<Rightarrow> e_sim" where
  "toggle s = s\<lparr>e_running := \<not> e_running s\<rparr>"

definition change_speed :: "real \<Rightarrow> e_sim \<Rightarrow> e_sim" where
  "change_speed factor s =
     (let s = s\<lparr>e_speed := e_speed s * factor\<rparr>
      in s\<lparr>e_speed := max 0.1 (min 10 (e_speed s))\<rparr>)"

text \<open>The integration of \<open>_step\<close> for one particle (lines 106 to 110).\<close>

definition integrate :: "real \<Rightarrow> particle \<Rightarrow> particle" where
  "integrate dt p =
     (let p = p\<lparr>p_vy := p_vy p + GRAVITY * dt\<rparr>;
          p = p\<lparr>p_vx := p_vx p * FRICTION\<rparr>;
          p = p\<lparr>p_vy := p_vy p * FRICTION\<rparr>;
          p = p\<lparr>p_x := p_x p + p_vx p * dt\<rparr>;
          p = p\<lparr>p_y := p_y p + p_vy p * dt\<rparr>
      in p)"

definition handle_wall_collision :: "particle \<Rightarrow> particle" where
  "handle_wall_collision p =
     (let p = (if p_x p - p_r p < 0 then p\<lparr>p_x := p_r p, p_vx := \<bar>p_vx p\<bar>\<rparr> else p);
          p = (if p_x p + p_r p > WIDTH then p\<lparr>p_x := WIDTH - p_r p, p_vx := - \<bar>p_vx p\<bar>\<rparr>
               else p);
          p = (if p_y p - p_r p < 0 then p\<lparr>p_y := p_r p, p_vy := \<bar>p_vy p\<bar>\<rparr> else p);
          p = (if p_y p + p_r p > HEIGHT then p\<lparr>p_y := HEIGHT - p_r p, p_vy := - \<bar>p_vy p\<bar>\<rparr>
               else p)
      in p)"

text \<open>
  The body of the inner loop of \<open>_resolve_collisions\<close> for the particles \<open>a\<close> and \<open>b\<close>,
  returning both as it leaves them. The divisions raise on a zero divisor, in the order
  the source evaluates them.
\<close>

definition resolve_pair :: "particle \<Rightarrow> particle \<Rightarrow> py_error + particle \<times> particle" where
  "resolve_pair a b =
     (let dx = p_x b - p_x a;
          dy = p_y b - p_y a;
          dist2 = dx * dx + dy * dy;
          radii = p_r a + p_r b
      in if dist2 \<le> radii * radii \<and> dist2 > 0 then
           let dist = sqrt dist2;
               nx = dx / dist;
               ny = dy / dist;
               overlap = radii - dist;
               total_mass = p_m a + p_m b
           in if total_mass = 0 then Inl ZeroDivisionError
              else
                let a = a\<lparr>p_x := p_x a - nx * (overlap * (p_m b / total_mass))\<rparr>;
                    a = a\<lparr>p_y := p_y a - ny * (overlap * (p_m b / total_mass))\<rparr>;
                    b = b\<lparr>p_x := p_x b + nx * (overlap * (p_m a / total_mass))\<rparr>;
                    b = b\<lparr>p_y := p_y b + ny * (overlap * (p_m a / total_mass))\<rparr>;
                    rvx = p_vx b - p_vx a;
                    rvy = p_vy b - p_vy a;
                    vel_along_normal = rvx * nx + rvy * ny
                in if vel_along_normal > 0 then Inr (a, b)
                   else
                     let j = - (1 + restitution) * vel_along_normal
                     in if p_m a = 0 \<or> p_m b = 0 \<or> 1 / p_m a + 1 / p_m b = 0
                        then Inl ZeroDivisionError
                        else
                          let j = j / (1 / p_m a + 1 / p_m b);
                              impulse_x = j * nx;
                              impulse_y = j * ny;
                              a = a\<lparr>p_vx := p_vx a - impulse_x / p_m a\<rparr>;
                              a = a\<lparr>p_vy := p_vy a - impulse_y / p_m a\<rparr>;
                              b = b\<lparr>p_vx := p_vx b + impulse_x / p_m b\<rparr>;
                              b = b\<lparr>p_vy := p_vy b + impulse_y / p_m b\<rparr>
                          in Inr (a, b)
         else Inr (a, b))"

text \<open>
  The inner loop for a fixed \<open>i\<close>, over the indices \<open>j\<close> still to visit, and the outer loop
  over the indices \<open>i\<close> still to visit. Both particles are changed in place, so the list is
  updated at \<open>i\<close> and at \<open>j\<close>; every index is below the length.
\<close>

fun resolve_inner :: "nat \<Rightarrow> nat list \<Rightarrow> particle list \<Rightarrow> py_error + particle list" where
  "resolve_inner i [] ps = Inr ps"
| "resolve_inner i (j # js) ps =
     (case resolve_pair (ps ! i) (ps ! j) of
        Inl err \<Rightarrow> Inl err
      | Inr (a, b) \<Rightarrow> resolve_inner i js (ps[i := a, j := b]))"

fun resolve_outer :: "nat list \<Rightarrow> nat \<Rightarrow> particle list \<Rightarrow> py_error + particle list" where
  "resolve_outer [] n ps = Inr ps"
| "resolve_outer (i # is) n ps =
     (case resolve_inner i [i + 1 ..< n] ps of
        Inl err \<Rightarrow> Inl err
      | Inr ps' \<Rightarrow> resolve_outer is n ps')"

definition resolve_collisions :: "particle list \<Rightarrow> py_error + particle list" where
  "resolve_collisions ps = (let n = length ps in resolve_outer [0 ..< n] n ps)"

text \<open>\<open>_step\<close> on the particle list, without the redraw.\<close>

definition e_step :: "real \<Rightarrow> particle list \<Rightarrow> py_error + particle list" where
  "e_step dt ps = resolve_collisions (map (\<lambda>p. handle_wall_collision (integrate dt p)) ps)"

text \<open>\<open>_loop\<close>, without the rescheduling.\<close>

definition loop :: "e_sim \<Rightarrow> py_error + e_sim" where
  "loop s =
     (if e_running s then
        case e_step (e_dt s * e_speed s) (e_particles s) of
          Inl err \<Rightarrow> Inl err
        | Inr ps \<Rightarrow> Inr (s\<lparr>e_particles := ps\<rparr>)
      else Inr s)"

text \<open>
  The states of \<open>Simulation\<close> between two callbacks: it starts from \<open>__init__\<close>; the keys and
  the wheel change the speed by a factor or toggle the run; the timer runs \<open>_loop\<close>; the
  reset and the mouse replace, add or move particles and touch nothing else.
\<close>

inductive e_reachable :: "e_sim \<Rightarrow> bool" where
  init: "e_reachable (e_init ps)"
| speed: "e_reachable s \<Longrightarrow> e_reachable (change_speed factor s)"
| toggled: "e_reachable s \<Longrightarrow> e_reachable (toggle s)"
| tick: "e_reachable s \<Longrightarrow> loop s = Inr s' \<Longrightarrow> e_reachable s'"
| edited: "e_reachable s \<Longrightarrow> e_reachable (s\<lparr>e_particles := ps\<rparr>)"

code_pred e_reachable .

subsection \<open>Particles for the examples\<close>

text \<open>
  The two particles of the specification's end-to-end scenario: radius 10, mass 100, at
  \<open>(100, 100)\<close> and \<open>(115, 100)\<close>, moving at \<open>(50, 0)\<close> and \<open>(-50, 0)\<close>.
\<close>

definition scenario_a :: particle where
  "scenario_a =
     \<lparr>p_x = 100, p_y = 100, p_vx = 50, p_vy = 0,
      p_r = 10, p_m = 100, p_color = ''#89ABCD''\<rparr>"

definition scenario_b :: particle where
  "scenario_b =
     \<lparr>p_x = 115, p_y = 100, p_vx = - 50, p_vy = 0,
      p_r = 10, p_m = 100, p_color = ''#EFEFEF''\<rparr>"

text \<open>
  Two particles as the program makes them (radius 18, mass \<open>18 * 18\<close>) that touch, at
  distance 36, and approach each other.
\<close>

definition touching_a :: particle where
  "touching_a =
     \<lparr>p_x = 100, p_y = 100, p_vx = 50, p_vy = 0,
      p_r = 18, p_m = 324, p_color = ''#89ABCD''\<rparr>"

definition touching_b :: particle where
  "touching_b =
     \<lparr>p_x = 136, p_y = 100, p_vx = - 50, p_vy = 0,
      p_r = 18, p_m = 324, p_color = ''#EFEFEF''\<rparr>"

text \<open>A particle far from \<open>scenario_a\<close>.\<close>

definition far_b :: particle where
  "far_b =
     \<lparr>p_x = 200, p_y = 100, p_vx = - 50, p_vy = 0,
      p_r = 10, p_m = 100, p_color = ''#EFEFEF''\<rparr>"

text \<open>
  Two particles across the left wall, with \<open>x - r < 0\<close>: one moving away from the wall, one
  moving toward it.
\<close>

definition leaving_left :: particle where
  "leaving_left =
     \<lparr>p_x = 5, p_y = 300, p_vx = 50, p_vy = 0,
      p_r = 18, p_m = 324, p_color = ''#89ABCD''\<rparr>"

definition approaching_left :: particle where
  "approaching_left =
     \<lparr>p_x = 5, p_y = 300, p_vx = - 50, p_vy = 0,
      p_r = 18, p_m = 324, p_color = ''#89ABCD''\<rparr>"

text \<open>
  Two particles as the program makes them (radius 18, mass \<open>18 * 18\<close>) that overlap, at
  distance 30 on a horizontal line, and meet head-on at \<open>(50, 0)\<close> and \<open>(-50, 0)\<close>.
\<close>

definition head_on_a :: particle where
  "head_on_a =
     \<lparr>p_x = 100, p_y = 100, p_vx = 50, p_vy = 0,
      p_r = 18, p_m = 324, p_color = ''#89ABCD''\<rparr>"

definition head_on_b :: particle where
  "head_on_b =
     \<lparr>p_x = 130, p_y = 100, p_vx = - 50, p_vy = 0,
      p_r = 18, p_m = 324, p_color = ''#EFEFEF''\<rparr>"

section \<open>Properties of bh.py\<close>

lemma hypot_zero_iff: "hypot a b = 0 \<longleftrightarrow> a = 0 \<and> b = 0"
  by (simp add: hypot_def sum_squares_eq_zero_iff)

lemma hypot_square: "hypot a b * hypot a b = a * a + b * b"
  by (simp add: hypot_def)

text \<open>
  C7. The acceleration at \<open>(px, py)\<close> is \<open>- G M (p - c) / (|p - c|\<^sup>2 + soft\<^sup>2) powr (3/2)\<close> for
  the centre \<open>c\<close>, the softening length is the positive constant 6, the value depends on
  the position, the centre and the mass only, and at the centre it is \<open>(0, 0)\<close>.
\<close>

theorem compute_acceleration_formula:
  "compute_acceleration s px py =
     (- G * bh_M s * (px - bh_width s / 2)
        / (((px - bh_width s / 2)\<^sup>2 + (py - bh_height s / 2)\<^sup>2) + soft\<^sup>2) powr (3 / 2),
      - G * bh_M s * (py - bh_height s / 2)
        / (((px - bh_width s / 2)\<^sup>2 + (py - bh_height s / 2)\<^sup>2) + soft\<^sup>2) powr (3 / 2))
   \<and> soft = 6 \<and> 0 < soft
   \<and> compute_acceleration s (fst (center s)) (snd (center s)) = (0, 0)"
proof -
  have at_center: "compute_acceleration s (fst (center s)) (snd (center s)) = (0, 0)"
    by (simp add: compute_acceleration_def center_def hypot_def)
  have formula: "compute_acceleration s px py =
     (- G * bh_M s * (px - bh_width s / 2)
        / (((px - bh_width s / 2)\<^sup>2 + (py - bh_height s / 2)\<^sup>2) + soft\<^sup>2) powr (3 / 2),
      - G * bh_M s * (py - bh_height s / 2)
        / (((px - bh_width s / 2)\<^sup>2 + (py - bh_height s / 2)\<^sup>2) + soft\<^sup>2) powr (3 / 2))"
  proof (cases "hypot (px - bh_width s / 2) (py - bh_height s / 2) = 0")
    case True
    then have "px - bh_width s / 2 = 0" and "py - bh_height s / 2 = 0"
      by (simp_all add: hypot_zero_iff)
    with True show ?thesis
      by (simp add: compute_acceleration_def center_def Let_def)
  next
    case False
    have exponent: "(1.5 :: real) = 3 / 2"
      by simp
    from False show ?thesis
      unfolding compute_acceleration_def center_def Let_def exponent
      by (simp add: hypot_square power2_eq_square)
  qed
  show ?thesis
    using at_center formula by (simp add: soft_def)
qed

lemma advance_fields:
  "bh_vx (advance s p) = bh_vx p + fst (compute_acceleration s (bh_x p) (bh_y p)) * bh_dt s"
  "bh_vy (advance s p) = bh_vy p + snd (compute_acceleration s (bh_x p) (bh_y p)) * bh_dt s"
  "bh_x (advance s p) = bh_x p + bh_vx (advance s p) * bh_dt s"
  "bh_y (advance s p) = bh_y p + bh_vy (advance s p) * bh_dt s"
  by (simp_all add: advance_def Let_def split_beta)

lemma step_loop_eq:
  "step_loop s ps = (map (advance s) ps, filter (captured s) (map (advance s) ps))"
  by (induction ps) (simp_all add: Let_def)

lemma remove_collected:
  "\<forall>q \<in> set qs. \<not> P q \<Longrightarrow> fold remove1 (filter P ps) (qs @ ps) = qs @ filter (\<lambda>q. \<not> P q) ps"
proof (induction ps arbitrary: qs)
  case Nil
  then show ?case by simp
next
  case (Cons p ps)
  show ?case
  proof (cases "P p")
    case True
    with Cons.prems have "p \<notin> set qs" by auto
    then have "remove1 p (qs @ p # ps) = qs @ ps"
      by (simp add: remove1_append)
    with True Cons.IH [OF Cons.prems] show ?thesis by simp
  next
    case False
    with Cons.prems have "\<forall>q \<in> set (qs @ [p]). \<not> P q" by simp
    from Cons.IH [OF this] False show ?thesis by simp
  qed
qed

lemma step_particles:
  "bh_particles (step s) = filter (\<lambda>q. \<not> captured s q) (map (advance s) (bh_particles s))"
  using remove_collected [of "[]" "captured s" "map (advance s) (bh_particles s)"]
  by (simp add: step_def step_loop_eq)

text \<open>
  C8. The first loop of \<open>step\<close> advances every particle once and collects those whose new
  position is within \<open>2 * M\<close> of the centre; nothing is removed until that loop is over,
  and the second loop leaves exactly the advanced particles that were not collected, in
  their order.
\<close>

theorem absorption_deferred:
  "step_loop s ps = (map (advance s) ps, filter (captured s) (map (advance s) ps))
   \<and> bh_particles (step s) = filter (\<lambda>q. \<not> captured s q) (map (advance s) (bh_particles s))
   \<and> captured s q = (hypot (bh_x q - bh_width s / 2) (bh_y q - bh_height s / 2) \<le> 2 * bh_M s)
   \<and> schwarzschild_radius s = 2 * bh_M s"
  by (simp add: step_loop_eq step_particles captured_def center_def schwarzschild_radius_def)

section \<open>Properties of e.py\<close>

text \<open>
  What \<open>resolve_pair\<close> returns for a pair in contact (\<open>0 < d \<le> R\<close>) with positive masses:
  it raises nothing, and every field of both particles is given.
\<close>

lemma resolve_pair_contact:
  assumes m: "0 < p_m a" "0 < p_m b"
    and d: "d = sqrt ((p_x b - p_x a)\<^sup>2 + (p_y b - p_y a)\<^sup>2)" "0 < d" "d \<le> p_r a + p_r b"
    and n: "nx = (p_x b - p_x a) / d" "ny = (p_y b - p_y a) / d"
    and vn: "vn = (p_vx b - p_vx a) * nx + (p_vy b - p_vy a) * ny"
    and j: "j = - (1 + restitution) * vn / (1 / p_m a + 1 / p_m b)"
  shows "\<exists>a' b'. resolve_pair a b = Inr (a', b')
    \<and> p_x a' = p_x a - nx * ((p_r a + p_r b - d) * (p_m b / (p_m a + p_m b)))
    \<and> p_y a' = p_y a - ny * ((p_r a + p_r b - d) * (p_m b / (p_m a + p_m b)))
    \<and> p_x b' = p_x b + nx * ((p_r a + p_r b - d) * (p_m a / (p_m a + p_m b)))
    \<and> p_y b' = p_y b + ny * ((p_r a + p_r b - d) * (p_m a / (p_m a + p_m b)))
    \<and> p_vx a' = (if vn > 0 then p_vx a else p_vx a - j * nx / p_m a)
    \<and> p_vy a' = (if vn > 0 then p_vy a else p_vy a - j * ny / p_m a)
    \<and> p_vx b' = (if vn > 0 then p_vx b else p_vx b + j * nx / p_m b)
    \<and> p_vy b' = (if vn > 0 then p_vy b else p_vy b + j * ny / p_m b)
    \<and> p_r a' = p_r a \<and> p_m a' = p_m a \<and> p_color a' = p_color a
    \<and> p_r b' = p_r b \<and> p_m b' = p_m b \<and> p_color b' = p_color b"
proof -
  let ?dist2 = "(p_x b - p_x a) * (p_x b - p_x a) + (p_y b - p_y a) * (p_y b - p_y a)"
  have dist: "sqrt ?dist2 = d"
    using d(1) by (simp add: power2_eq_square)
  have nonneg: "0 \<le> ?dist2"
    by simp
  have "d * d = ?dist2"
    using dist nonneg by (metis real_sqrt_mult_self abs_of_nonneg)
  then have pos: "0 < ?dist2"
    using d(2) by (metis mult_pos_pos)
  have "d * d \<le> (p_r a + p_r b) * (p_r a + p_r b)"
    using d(2,3) by (simp add: mult_mono)
  with \<open>d * d = ?dist2\<close> have le: "?dist2 \<le> (p_r a + p_r b) * (p_r a + p_r b)"
    by simp
  have total: "p_m a + p_m b \<noteq> 0" and ma: "p_m a \<noteq> 0" and mb: "p_m b \<noteq> 0"
    using m by simp_all
  have inv: "1 / p_m a + 1 / p_m b \<noteq> 0"
    using m by (simp add: add_pos_pos less_imp_neq[THEN not_sym])
  show ?thesis
    unfolding resolve_pair_def Let_def
    using pos le total ma mb inv
    by (simp add: dist n vn j)
qed

lemma sqrt_225: "sqrt 225 = 15"
  using real_sqrt_abs [of 15] by simp

text \<open>
  The resolver on a list of two particles is the body of its inner loop on that pair.
\<close>

lemma resolve_collisions_two:
  "resolve_collisions [a, b] =
     (case resolve_pair a b of Inl err \<Rightarrow> Inl err | Inr (a', b') \<Rightarrow> Inr [a', b'])"
proof -
  have upt: "[0 ..< 2] = [0, 1]" "[Suc 0 ..< 2] = [1]" "[2 ..< 2] = []"
    by (simp_all add: upt_rec)
  show ?thesis
    by (simp add: resolve_collisions_def upt split: sum.splits prod.splits)
qed

text \<open>
  C2. In the collision resolver, for a pair in contact, with unit normal
  \<open>n = (b.pos - a.pos) / d\<close> and normal relative velocity \<open>vn = (v_b - v_a) \<cdot> n\<close>: if \<open>vn > 0\<close>
  the velocities are unchanged and only the positions are corrected; otherwise, with
  \<open>j = - (1 + e) vn / (1 / m_a + 1 / m_b)\<close>, the velocities become \<open>v_a - (j / m_a) n\<close> and
  \<open>v_b + (j / m_b) n\<close>. That is what the body of the inner loop returns for the pair and
  what \<open>_resolve_collisions\<close> leaves in the list of the two particles. The restitution \<open>e\<close>
  is the constant \<open>restitution\<close> of the source.
\<close>

theorem impulse_exchange:
  assumes "0 < p_m a" "0 < p_m b"
    and "d = sqrt ((p_x b - p_x a)\<^sup>2 + (p_y b - p_y a)\<^sup>2)" "0 < d" "d \<le> p_r a + p_r b"
    and "nx = (p_x b - p_x a) / d" "ny = (p_y b - p_y a) / d"
    and "vn = (p_vx b - p_vx a) * nx + (p_vy b - p_vy a) * ny"
    and "j = - (1 + restitution) * vn / (1 / p_m a + 1 / p_m b)"
  shows "\<exists>a' b'. resolve_pair a b = Inr (a', b')
    \<and> resolve_collisions [a, b] = Inr [a', b']
    \<and> (if vn > 0
        then p_vx a' = p_vx a \<and> p_vy a' = p_vy a \<and> p_vx b' = p_vx b \<and> p_vy b' = p_vy b
          \<and> p_x a' = p_x a - nx * ((p_r a + p_r b - d) * (p_m b / (p_m a + p_m b)))
          \<and> p_y a' = p_y a - ny * ((p_r a + p_r b - d) * (p_m b / (p_m a + p_m b)))
          \<and> p_x b' = p_x b + nx * ((p_r a + p_r b - d) * (p_m a / (p_m a + p_m b)))
          \<and> p_y b' = p_y b + ny * ((p_r a + p_r b - d) * (p_m a / (p_m a + p_m b)))
        else p_vx a' = p_vx a - (j / p_m a) * nx \<and> p_vy a' = p_vy a - (j / p_m a) * ny
          \<and> p_vx b' = p_vx b + (j / p_m b) * nx \<and> p_vy b' = p_vy b + (j / p_m b) * ny)"
proof -
  from resolve_pair_contact [OF assms]
  obtain a' b' where r: "resolve_pair a b = Inr (a', b')"
    and pos: "p_x a' = p_x a - nx * ((p_r a + p_r b - d) * (p_m b / (p_m a + p_m b)))"
      "p_y a' = p_y a - ny * ((p_r a + p_r b - d) * (p_m b / (p_m a + p_m b)))"
      "p_x b' = p_x b + nx * ((p_r a + p_r b - d) * (p_m a / (p_m a + p_m b)))"
      "p_y b' = p_y b + ny * ((p_r a + p_r b - d) * (p_m a / (p_m a + p_m b)))"
    and vel: "p_vx a' = (if vn > 0 then p_vx a else p_vx a - j * nx / p_m a)"
      "p_vy a' = (if vn > 0 then p_vy a else p_vy a - j * ny / p_m a)"
      "p_vx b' = (if vn > 0 then p_vx b else p_vx b + j * nx / p_m b)"
      "p_vy b' = (if vn > 0 then p_vy b else p_vy b + j * ny / p_m b)"
    by blast
  have list: "resolve_collisions [a, b] = Inr [a', b']"
    by (simp add: resolve_collisions_two r)
  show ?thesis
    using r list pos vel by simp
qed

text \<open>
  The scenario's pair, through the resolver: \<open>d = 15\<close>, \<open>n = (1, 0)\<close>, \<open>vn = -100\<close>,
  \<open>j = 9750\<close>.
\<close>

theorem impulse_exchange_witness:
  "\<exists>a' b'. resolve_pair scenario_a scenario_b = Inr (a', b')
     \<and> resolve_collisions [scenario_a, scenario_b] = Inr [a', b']
     \<and> p_vx a' = 50 - (9750 / 100) * 1 \<and> p_vy a' = 0
     \<and> p_vx b' = - 50 + (9750 / 100) * 1 \<and> p_vy b' = 0"
  using impulse_exchange [of scenario_a scenario_b 15 1 0 "- 100" 9750]
  by (simp add: scenario_a_def scenario_b_def restitution_def sqrt_225)

text \<open>
  C3. In the collision resolver, for a pair in contact, \<open>a\<close> is displaced by
  \<open>- n overlap m_b / (m_a + m_b)\<close> and \<open>b\<close> by \<open>n overlap m_a / (m_a + m_b)\<close> with
  \<open>overlap = R - d\<close>; the mass-weighted displacements add up to zero, and afterwards the
  centres are exactly \<open>R\<close> apart. That holds of the pair the inner loop returns and of the
  list \<open>_resolve_collisions\<close> leaves for the two particles.
\<close>

theorem positional_correction:
  assumes "0 < p_m a" "0 < p_m b"
    and "d = sqrt ((p_x b - p_x a)\<^sup>2 + (p_y b - p_y a)\<^sup>2)" "0 < d" "d \<le> p_r a + p_r b"
    and "nx = (p_x b - p_x a) / d" "ny = (p_y b - p_y a) / d"
    and "overlap = p_r a + p_r b - d"
  shows "\<exists>a' b'. resolve_pair a b = Inr (a', b')
    \<and> resolve_collisions [a, b] = Inr [a', b']
    \<and> p_x a' - p_x a = - nx * overlap * (p_m b / (p_m a + p_m b))
    \<and> p_y a' - p_y a = - ny * overlap * (p_m b / (p_m a + p_m b))
    \<and> p_x b' - p_x b = nx * overlap * (p_m a / (p_m a + p_m b))
    \<and> p_y b' - p_y b = ny * overlap * (p_m a / (p_m a + p_m b))
    \<and> p_m a * (p_x a' - p_x a) + p_m b * (p_x b' - p_x b) = 0
    \<and> p_m a * (p_y a' - p_y a) + p_m b * (p_y b' - p_y b) = 0
    \<and> sqrt ((p_x b' - p_x a')\<^sup>2 + (p_y b' - p_y a')\<^sup>2) = p_r a + p_r b"
proof -
  let ?R = "p_r a + p_r b"
  let ?M = "p_m a + p_m b"
  from resolve_pair_contact [OF assms(1-7) refl refl]
  obtain a' b' where r: "resolve_pair a b = Inr (a', b')"
    and pos: "p_x a' = p_x a - nx * ((?R - d) * (p_m b / ?M))"
      "p_y a' = p_y a - ny * ((?R - d) * (p_m b / ?M))"
      "p_x b' = p_x b + nx * ((?R - d) * (p_m a / ?M))"
      "p_y b' = p_y b + ny * ((?R - d) * (p_m a / ?M))"
    by blast
  have list: "resolve_collisions [a, b] = Inr [a', b']"
    by (simp add: resolve_collisions_two r)
  have M: "?M \<noteq> 0"
    using assms(1,2) by simp
  have disp: "p_x a' - p_x a = - nx * overlap * (p_m b / ?M)"
    "p_y a' - p_y a = - ny * overlap * (p_m b / ?M)"
    "p_x b' - p_x b = nx * overlap * (p_m a / ?M)"
    "p_y b' - p_y b = ny * overlap * (p_m a / ?M)"
    using pos assms(8) by simp_all
  have cx: "p_m a * (p_x a' - p_x a) + p_m b * (p_x b' - p_x b) = 0"
    unfolding disp by (simp add: algebra_simps)
  have cy: "p_m a * (p_y a' - p_y a) + p_m b * (p_y b' - p_y b) = 0"
    unfolding disp by (simp add: algebra_simps)
  have frac: "p_m a / ?M + p_m b / ?M = 1"
    using M by (simp add: add_divide_distrib [symmetric])
  have dx: "p_x b - p_x a = nx * d" and dy: "p_y b - p_y a = ny * d"
    using assms(4,6,7) by simp_all
  have "p_x b' - p_x a' = nx * d + nx * overlap * (p_m a / ?M + p_m b / ?M)"
    using disp dx by (simp add: algebra_simps)
  then have gap_x: "p_x b' - p_x a' = nx * ?R"
    using frac assms(8) by (simp add: algebra_simps)
  have "p_y b' - p_y a' = ny * d + ny * overlap * (p_m a / ?M + p_m b / ?M)"
    using disp dy by (simp add: algebra_simps)
  then have gap_y: "p_y b' - p_y a' = ny * ?R"
    using frac assms(8) by (simp add: algebra_simps)
  have "d\<^sup>2 = (p_x b - p_x a)\<^sup>2 + (p_y b - p_y a)\<^sup>2"
    using assms(3) by simp
  then have "d\<^sup>2 = (nx\<^sup>2 + ny\<^sup>2) * d\<^sup>2"
    unfolding dx dy by (simp add: power_mult_distrib algebra_simps)
  then have unit: "nx\<^sup>2 + ny\<^sup>2 = 1"
    using assms(4) by simp
  have "(p_x b' - p_x a')\<^sup>2 + (p_y b' - p_y a')\<^sup>2 = (nx\<^sup>2 + ny\<^sup>2) * ?R\<^sup>2"
    unfolding gap_x gap_y by (simp only: power_mult_distrib distrib_right)
  then have "sqrt ((p_x b' - p_x a')\<^sup>2 + (p_y b' - p_y a')\<^sup>2) = \<bar>?R\<bar>"
    using unit by simp
  then have gap: "sqrt ((p_x b' - p_x a')\<^sup>2 + (p_y b' - p_y a')\<^sup>2) = ?R"
    using assms(4,5) by simp
  show ?thesis
    using r list disp cx cy gap by blast
qed

text \<open>The scenario's pair, through the resolver: an overlap of 5, each particle moved by 2.5.\<close>

theorem positional_correction_witness:
  "\<exists>a' b'. resolve_pair scenario_a scenario_b = Inr (a', b')
     \<and> resolve_collisions [scenario_a, scenario_b] = Inr [a', b']
     \<and> p_x a' - 100 = - 1 * 5 * (100 / (100 + 100))
     \<and> p_x b' - 115 = 1 * 5 * (100 / (100 + 100))
     \<and> 100 * (p_x a' - 100) + 100 * (p_x b' - 115) = 0
     \<and> sqrt ((p_x b' - p_x a')\<^sup>2 + (p_y b' - p_y a')\<^sup>2) = 10 + 10"
  using positional_correction [of scenario_a scenario_b 15 1 0 5]
  by (auto simp add: scenario_a_def scenario_b_def sqrt_225)

lemma sqrt_1296: "sqrt 1296 = 36"
  using real_sqrt_abs [of 36] by simp

lemma sqrt_900: "sqrt 900 = 30"
  using real_sqrt_abs [of 30] by simp

text \<open>
  C5. The code does not exchange the velocities in full. Two particles of equal mass 324
  and radius 18 that overlap on a horizontal line and meet head-on at \<open>(50, 0)\<close> and
  \<open>(-50, 0)\<close> leave the resolver at \<open>(-47.5, 0)\<close> and \<open>(47.5, 0)\<close>, not at \<open>(-50, 0)\<close> and
  \<open>(50, 0)\<close>: the resolver takes the restitution 0.95, although the docstring of e.py and
  the comment on that line call the collisions elastic, which is restitution 1.
\<close>

theorem head_on_not_exchanged:
  "resolve_pair head_on_a head_on_b =
     Inr (head_on_a\<lparr>p_x := 97, p_vx := - 47.5\<rparr>, head_on_b\<lparr>p_x := 133, p_vx := 47.5\<rparr>)
   \<and> resolve_collisions [head_on_a, head_on_b] =
     Inr [head_on_a\<lparr>p_x := 97, p_vx := - 47.5\<rparr>, head_on_b\<lparr>p_x := 133, p_vx := 47.5\<rparr>]
   \<and> resolve_collisions [head_on_a, head_on_b] \<noteq>
     Inr [head_on_a\<lparr>p_x := 97, p_vx := - 50\<rparr>, head_on_b\<lparr>p_x := 133, p_vx := 50\<rparr>]
   \<and> restitution \<noteq> 1"
proof -
  have pair: "resolve_pair head_on_a head_on_b =
     Inr (head_on_a\<lparr>p_x := 97, p_vx := - 47.5\<rparr>, head_on_b\<lparr>p_x := 133, p_vx := 47.5\<rparr>)"
    by (simp add: resolve_pair_def head_on_a_def head_on_b_def restitution_def sqrt_900 Let_def)
  have list: "resolve_collisions [head_on_a, head_on_b] =
     Inr [head_on_a\<lparr>p_x := 97, p_vx := - 47.5\<rparr>, head_on_b\<lparr>p_x := 133, p_vx := 47.5\<rparr>]"
    by (simp add: resolve_collisions_two pair)
  have other: "resolve_collisions [head_on_a, head_on_b] \<noteq>
     Inr [head_on_a\<lparr>p_x := 97, p_vx := - 50\<rparr>, head_on_b\<lparr>p_x := 133, p_vx := 50\<rparr>]"
    unfolding list by (simp add: head_on_a_def head_on_b_def)
  show ?thesis
    using pair list other by (simp add: restitution_def)
qed

text \<open>
  The same for every speed: a head-on pair of equal masses in contact on a horizontal
  line leaves with its velocities exchanged and scaled by the restitution of the source.
\<close>

lemma head_on_velocities:
  assumes "p_m a = p_m b" "0 < p_m a"
    and "p_y a = p_y b" "p_x a < p_x b" "p_x b - p_x a \<le> p_r a + p_r b"
    and "p_vx a = v" "p_vy a = 0" "p_vx b = - v" "p_vy b = 0" "0 \<le> v"
  shows "\<exists>a' b'. resolve_pair a b = Inr (a', b')
    \<and> p_vx a' = - restitution * v \<and> p_vy a' = 0
    \<and> p_vx b' = restitution * v \<and> p_vy b' = 0
    \<and> restitution = 0.95"
proof -
  let ?d = "p_x b - p_x a"
  have d: "?d = sqrt ((p_x b - p_x a)\<^sup>2 + (p_y b - p_y a)\<^sup>2)" "0 < ?d"
    using assms(3,4) by simp_all
  have m: "0 < p_m b"
    using assms(1,2) by simp
  have nx: "1 = (p_x b - p_x a) / ?d" and ny: "0 = (p_y b - p_y a) / ?d"
    using assms(3,4) by simp_all
  have vn: "- 2 * v = (p_vx b - p_vx a) * 1 + (p_vy b - p_vy a) * 0"
    using assms(6-9) by simp
  have j: "(1 + restitution) * v * p_m a = - (1 + restitution) * (- 2 * v) / (1 / p_m a + 1 / p_m b)"
    using assms(1,2) by (simp add: algebra_simps)
  from resolve_pair_contact [OF assms(2) m d assms(5) nx ny vn j]
  obtain a' b' where r: "resolve_pair a b = Inr (a', b')"
    and vel: "p_vx a' = (if - 2 * v > 0 then p_vx a else p_vx a - (1 + restitution) * v * p_m a * 1 / p_m a)"
      "p_vy a' = (if - 2 * v > 0 then p_vy a else p_vy a - (1 + restitution) * v * p_m a * 0 / p_m a)"
      "p_vx b' = (if - 2 * v > 0 then p_vx b else p_vx b + (1 + restitution) * v * p_m a * 1 / p_m b)"
      "p_vy b' = (if - 2 * v > 0 then p_vy b else p_vy b + (1 + restitution) * v * p_m a * 0 / p_m b)"
    by blast
  have cancel: "(1 + restitution) * v * p_m a * 1 / p_m a = (1 + restitution) * v"
    "(1 + restitution) * v * p_m a * 1 / p_m b = (1 + restitution) * v"
    using assms(1,2) by simp_all
  have approaching: "\<not> - 2 * v > 0"
    using assms(10) by simp
  have "p_vx a' = - restitution * v" "p_vy a' = 0" "p_vx b' = restitution * v" "p_vy b' = 0"
    using vel assms(6-9) unfolding cancel if_not_P [OF approaching]
    by (simp_all add: algebra_simps)
  then show ?thesis
    using r by (simp add: restitution_def)
qed

text \<open>
  C6, as stated, fails on the code at \<open>d = R\<close>: the guard of the resolver is
  \<open>dist2 \<le> radii * radii\<close>, so a touching pair is not skipped, and when it approaches its
  velocities change. \<open>_overlap\<close> does not count the same pair as overlapping.
\<close>

theorem touching_counterexample:
  "sqrt ((p_x touching_b - p_x touching_a)\<^sup>2 + (p_y touching_b - p_y touching_a)\<^sup>2)
     \<ge> p_r touching_a + p_r touching_b
   \<and> resolve_pair touching_a touching_b =
     Inr (touching_a\<lparr>p_vx := - 47.5\<rparr>, touching_b\<lparr>p_vx := 47.5\<rparr>)
   \<and> resolve_collisions [touching_a, touching_b] =
     Inr [touching_a\<lparr>p_vx := - 47.5\<rparr>, touching_b\<lparr>p_vx := 47.5\<rparr>]
   \<and> \<not> overlap_test touching_a touching_b"
proof -
  have pair: "resolve_pair touching_a touching_b =
     Inr (touching_a\<lparr>p_vx := - 47.5\<rparr>, touching_b\<lparr>p_vx := 47.5\<rparr>)"
    by (simp add: resolve_pair_def touching_a_def touching_b_def restitution_def sqrt_1296 Let_def)
  have upt: "[0 ..< 2] = [0, 1]" "[Suc 0 ..< 2] = [1]" "[2 ..< 2] = []"
    by (simp_all add: upt_rec)
  have "resolve_collisions [touching_a, touching_b] =
     Inr [touching_a\<lparr>p_vx := - 47.5\<rparr>, touching_b\<lparr>p_vx := 47.5\<rparr>]"
    by (simp add: resolve_collisions_def upt pair)
  then show ?thesis
    using pair by (simp add: touching_a_def touching_b_def sqrt_1296 overlap_test_def)
qed

text \<open>Pairs the guard of the resolver rejects, and lists of such pairs.\<close>

lemma resolve_pair_skip:
  assumes "0 \<le> p_r a + p_r b"
    and "d = sqrt ((p_x b - p_x a)\<^sup>2 + (p_y b - p_y a)\<^sup>2)"
    and "p_r a + p_r b < d \<or> d = 0"
  shows "resolve_pair a b = Inr (a, b)"
proof -
  let ?dist2 = "(p_x b - p_x a) * (p_x b - p_x a) + (p_y b - p_y a) * (p_y b - p_y a)"
  have dd: "d * d = ?dist2"
    using assms(2) by (simp add: power2_eq_square)
  from assms(3) have skip: "\<not> (?dist2 \<le> (p_r a + p_r b) * (p_r a + p_r b) \<and> ?dist2 > 0)"
  proof
    assume far: "p_r a + p_r b < d"
    with assms(1) have "(p_r a + p_r b) * (p_r a + p_r b) < d * d"
      by (simp add: mult_strict_mono')
    with dd show ?thesis by simp
  next
    assume "d = 0"
    with dd show ?thesis by simp
  qed
  show ?thesis
    by (simp only: resolve_pair_def Let_def skip if_False)
qed

lemma resolve_inner_skip:
  assumes "i < length ps"
    and "\<forall>j \<in> set js. j < length ps \<and> resolve_pair (ps ! i) (ps ! j) = Inr (ps ! i, ps ! j)"
  shows "resolve_inner i js ps = Inr ps"
  using assms by (induction js) simp_all

lemma resolve_outer_skip:
  assumes "\<forall>i \<in> set is. resolve_inner i [i + 1 ..< n] ps = Inr ps"
  shows "resolve_outer is n ps = Inr ps"
  using assms by (induction "is") simp_all

text \<open>
  A pair that touches (\<open>d = R\<close>) passes the guard, but nothing changes when it does not
  approach: the overlap is zero, and the impulse is skipped or is zero.
\<close>

lemma resolve_pair_touching:
  assumes m: "0 < p_m a" "0 < p_m b"
    and d: "d = sqrt ((p_x b - p_x a)\<^sup>2 + (p_y b - p_y a)\<^sup>2)" "0 < d" "d = p_r a + p_r b"
    and away: "0 \<le> (p_vx b - p_vx a) * (p_x b - p_x a) + (p_vy b - p_vy a) * (p_y b - p_y a)"
  shows "resolve_pair a b = Inr (a, b)"
proof -
  let ?nx = "(p_x b - p_x a) / d" and ?ny = "(p_y b - p_y a) / d"
  let ?vn = "(p_vx b - p_vx a) * ?nx + (p_vy b - p_vy a) * ?ny"
  let ?j = "- (1 + restitution) * ?vn / (1 / p_m a + 1 / p_m b)"
  have "?vn = ((p_vx b - p_vx a) * (p_x b - p_x a) + (p_vy b - p_vy a) * (p_y b - p_y a)) / d"
    by (simp add: add_divide_distrib)
  with away d(2) have vn: "0 \<le> ?vn"
    by simp
  have le: "d \<le> p_r a + p_r b"
    using d(3) by simp
  from resolve_pair_contact [OF m d(1,2) le refl refl refl refl]
  obtain a' b' where r: "resolve_pair a b = Inr (a', b')"
    and f: "p_x a' = p_x a - ?nx * ((p_r a + p_r b - d) * (p_m b / (p_m a + p_m b)))"
      "p_y a' = p_y a - ?ny * ((p_r a + p_r b - d) * (p_m b / (p_m a + p_m b)))"
      "p_x b' = p_x b + ?nx * ((p_r a + p_r b - d) * (p_m a / (p_m a + p_m b)))"
      "p_y b' = p_y b + ?ny * ((p_r a + p_r b - d) * (p_m a / (p_m a + p_m b)))"
      "p_vx a' = (if ?vn > 0 then p_vx a else p_vx a - ?j * ?nx / p_m a)"
      "p_vy a' = (if ?vn > 0 then p_vy a else p_vy a - ?j * ?ny / p_m a)"
      "p_vx b' = (if ?vn > 0 then p_vx b else p_vx b + ?j * ?nx / p_m b)"
      "p_vy b' = (if ?vn > 0 then p_vy b else p_vy b + ?j * ?ny / p_m b)"
      "p_r a' = p_r a" "p_m a' = p_m a" "p_color a' = p_color a"
      "p_r b' = p_r b" "p_m b' = p_m b" "p_color b' = p_color b"
    by blast
  have pos: "p_x a' = p_x a" "p_y a' = p_y a" "p_x b' = p_x b" "p_y b' = p_y b"
    using f(1-4) d(3) by simp_all
  have vel: "p_vx a' = p_vx a \<and> p_vy a' = p_vy a \<and> p_vx b' = p_vx b \<and> p_vy b' = p_vy b"
  proof (cases "?vn > 0")
    case True
    with f(5-8) show ?thesis
      by (simp only: if_True)
  next
    case False
    with vn have z: "?vn = 0"
      by simp
    from f(5-8) show ?thesis
      by (simp only: z less_irrefl if_False mult_zero_right mult_zero_left div_0 diff_zero
          add_0_right)
  qed
  have "a' = a" "b' = b"
    using pos vel f(9-14) by (simp_all add: particle.equality)
  with r show ?thesis
    by simp
qed

text \<open>
  C6, amended. The resolver skips every pair whose centre distance \<open>d\<close> satisfies \<open>d > R\<close>
  (for radii whose sum is not negative) or \<open>d = 0\<close>, raising nothing: the pair is returned
  as it was, and running the resolver on the two-particle list, or on any list all of
  whose pairs are of that kind, changes nothing. A pair with \<open>d = R\<close> is not skipped; with
  positive masses its positions do not change, and it comes back unchanged when it does
  not approach (\<open>(v_b - v_a) \<cdot> (b.pos - a.pos) \<ge> 0\<close>).
\<close>

theorem separated_pairs_skipped:
  assumes "d = sqrt ((p_x b - p_x a)\<^sup>2 + (p_y b - p_y a)\<^sup>2)"
  shows "(0 \<le> p_r a + p_r b \<and> (p_r a + p_r b < d \<or> d = 0) \<longrightarrow>
        resolve_pair a b = Inr (a, b) \<and> resolve_collisions [a, b] = Inr [a, b])
    \<and> (d = p_r a + p_r b \<and> 0 < d \<and> 0 < p_m a \<and> 0 < p_m b
        \<and> 0 \<le> (p_vx b - p_vx a) * (p_x b - p_x a) + (p_vy b - p_vy a) * (p_y b - p_y a) \<longrightarrow>
        resolve_pair a b = Inr (a, b) \<and> resolve_collisions [a, b] = Inr [a, b])
    \<and> ((\<forall>i j. i < j \<and> j < length ps \<longrightarrow>
           0 \<le> p_r (ps ! i) + p_r (ps ! j)
           \<and> (p_r (ps ! i) + p_r (ps ! j)
                < sqrt ((p_x (ps ! j) - p_x (ps ! i))\<^sup>2 + (p_y (ps ! j) - p_y (ps ! i))\<^sup>2)
              \<or> sqrt ((p_x (ps ! j) - p_x (ps ! i))\<^sup>2 + (p_y (ps ! j) - p_y (ps ! i))\<^sup>2) = 0))
        \<longrightarrow> resolve_collisions ps = Inr ps)
    \<and> (d = p_r a + p_r b \<and> 0 < d \<and> 0 < p_m a \<and> 0 < p_m b \<longrightarrow>
        (\<exists>a' b'. resolve_pair a b = Inr (a', b') \<and> resolve_collisions [a, b] = Inr [a', b']
           \<and> p_x a' = p_x a \<and> p_y a' = p_y a \<and> p_x b' = p_x b \<and> p_y b' = p_y b))"
proof -
  have upt: "[0 ..< 2] = [0, 1]" "[Suc 0 ..< 2] = [1]" "[2 ..< 2] = []"
    by (simp_all add: upt_rec)
  have two: "resolve_collisions [a, b] = Inr [a, b]" if "resolve_pair a b = Inr (a, b)"
    by (simp add: resolve_collisions_def upt that)
  have apart: "0 \<le> p_r a + p_r b \<and> (p_r a + p_r b < d \<or> d = 0) \<longrightarrow>
        resolve_pair a b = Inr (a, b) \<and> resolve_collisions [a, b] = Inr [a, b]"
    using resolve_pair_skip [OF _ assms] two by blast
  have touching: "d = p_r a + p_r b \<and> 0 < d \<and> 0 < p_m a \<and> 0 < p_m b
        \<and> 0 \<le> (p_vx b - p_vx a) * (p_x b - p_x a) + (p_vy b - p_vy a) * (p_y b - p_y a) \<longrightarrow>
        resolve_pair a b = Inr (a, b) \<and> resolve_collisions [a, b] = Inr [a, b]"
    using resolve_pair_touching [OF _ _ assms] two by blast
  have many: "resolve_collisions ps = Inr ps"
    if sep: "\<forall>i j. i < j \<and> j < length ps \<longrightarrow>
           0 \<le> p_r (ps ! i) + p_r (ps ! j)
           \<and> (p_r (ps ! i) + p_r (ps ! j)
                < sqrt ((p_x (ps ! j) - p_x (ps ! i))\<^sup>2 + (p_y (ps ! j) - p_y (ps ! i))\<^sup>2)
              \<or> sqrt ((p_x (ps ! j) - p_x (ps ! i))\<^sup>2 + (p_y (ps ! j) - p_y (ps ! i))\<^sup>2) = 0)"
  proof -
    have inner: "resolve_inner i [i + 1 ..< length ps] ps = Inr ps" if "i < length ps" for i
    proof (rule resolve_inner_skip [OF that], rule ballI)
      fix j assume "j \<in> set [i + 1 ..< length ps]"
      then have ij: "i < j" "j < length ps" by simp_all
      with sep have "0 \<le> p_r (ps ! i) + p_r (ps ! j)"
        and "p_r (ps ! i) + p_r (ps ! j)
                < sqrt ((p_x (ps ! j) - p_x (ps ! i))\<^sup>2 + (p_y (ps ! j) - p_y (ps ! i))\<^sup>2)
              \<or> sqrt ((p_x (ps ! j) - p_x (ps ! i))\<^sup>2 + (p_y (ps ! j) - p_y (ps ! i))\<^sup>2) = 0"
        by blast+
      then have "resolve_pair (ps ! i) (ps ! j) = Inr (ps ! i, ps ! j)"
        by (rule resolve_pair_skip [OF _ refl])
      with ij show "j < length ps \<and> resolve_pair (ps ! i) (ps ! j) = Inr (ps ! i, ps ! j)"
        by simp
    qed
    show ?thesis
      unfolding resolve_collisions_def Let_def
    proof (rule resolve_outer_skip, rule ballI)
      fix i assume "i \<in> set [0 ..< length ps]"
      then have "i < length ps" by simp
      then show "resolve_inner i [i + 1 ..< length ps] ps = Inr ps" by (rule inner)
    qed
  qed
  have lists: "(\<forall>i j. i < j \<and> j < length ps \<longrightarrow>
           0 \<le> p_r (ps ! i) + p_r (ps ! j)
           \<and> (p_r (ps ! i) + p_r (ps ! j)
                < sqrt ((p_x (ps ! j) - p_x (ps ! i))\<^sup>2 + (p_y (ps ! j) - p_y (ps ! i))\<^sup>2)
              \<or> sqrt ((p_x (ps ! j) - p_x (ps ! i))\<^sup>2 + (p_y (ps ! j) - p_y (ps ! i))\<^sup>2) = 0))
        \<longrightarrow> resolve_collisions ps = Inr ps"
    using many by blast
  have still: "d = p_r a + p_r b \<and> 0 < d \<and> 0 < p_m a \<and> 0 < p_m b \<longrightarrow>
        (\<exists>a' b'. resolve_pair a b = Inr (a', b') \<and> resolve_collisions [a, b] = Inr [a', b']
           \<and> p_x a' = p_x a \<and> p_y a' = p_y a \<and> p_x b' = p_x b \<and> p_y b' = p_y b)"
  proof
    assume h: "d = p_r a + p_r b \<and> 0 < d \<and> 0 < p_m a \<and> 0 < p_m b"
    then have m: "0 < p_m a" "0 < p_m b" and pos: "0 < d" and le: "d \<le> p_r a + p_r b"
      by simp_all
    from resolve_pair_contact [OF m assms pos le refl refl refl refl]
    obtain a' b' where r: "resolve_pair a b = Inr (a', b')"
      and f: "p_x a' = p_x a
          - (p_x b - p_x a) / d * ((p_r a + p_r b - d) * (p_m b / (p_m a + p_m b)))"
        "p_y a' = p_y a
          - (p_y b - p_y a) / d * ((p_r a + p_r b - d) * (p_m b / (p_m a + p_m b)))"
        "p_x b' = p_x b
          + (p_x b - p_x a) / d * ((p_r a + p_r b - d) * (p_m a / (p_m a + p_m b)))"
        "p_y b' = p_y b
          + (p_y b - p_y a) / d * ((p_r a + p_r b - d) * (p_m a / (p_m a + p_m b)))"
      by blast
    have "p_x a' = p_x a" "p_y a' = p_y a" "p_x b' = p_x b" "p_y b' = p_y b"
      using f h by simp_all
    moreover have "resolve_collisions [a, b] = Inr [a', b']"
      by (simp add: resolve_collisions_two r)
    ultimately show "\<exists>a' b'. resolve_pair a b = Inr (a', b')
        \<and> resolve_collisions [a, b] = Inr [a', b']
        \<and> p_x a' = p_x a \<and> p_y a' = p_y a \<and> p_x b' = p_x b \<and> p_y b' = p_y b"
      using r by blast
  qed
  show ?thesis
    using apart touching lists still by (intro conjI)
qed

text \<open>
  Two particles of radius 10 at distance 100, as a pair and as a list; the touching pair
  with its velocities turned away from each other; and the touching pair approaching,
  whose positions stay.
\<close>

theorem separated_pairs_skipped_witness:
  "p_r scenario_a + p_r far_b
     < sqrt ((p_x far_b - p_x scenario_a)\<^sup>2 + (p_y far_b - p_y scenario_a)\<^sup>2)
   \<and> resolve_pair scenario_a far_b = Inr (scenario_a, far_b)
   \<and> resolve_collisions [scenario_a, far_b] = Inr [scenario_a, far_b]
   \<and> sqrt ((p_x (touching_b\<lparr>p_vx := 50\<rparr>) - p_x (touching_a\<lparr>p_vx := - 50\<rparr>))\<^sup>2
          + (p_y (touching_b\<lparr>p_vx := 50\<rparr>) - p_y (touching_a\<lparr>p_vx := - 50\<rparr>))\<^sup>2)
       = p_r (touching_a\<lparr>p_vx := - 50\<rparr>) + p_r (touching_b\<lparr>p_vx := 50\<rparr>)
   \<and> resolve_pair (touching_a\<lparr>p_vx := - 50\<rparr>) (touching_b\<lparr>p_vx := 50\<rparr>)
       = Inr (touching_a\<lparr>p_vx := - 50\<rparr>, touching_b\<lparr>p_vx := 50\<rparr>)
   \<and> (\<exists>a' b'. resolve_collisions [touching_a, touching_b] = Inr [a', b']
        \<and> p_x a' = 100 \<and> p_y a' = 100 \<and> p_x b' = 136 \<and> p_y b' = 100)"
proof -
  let ?ps = "[scenario_a, far_b]"
  let ?a = "touching_a\<lparr>p_vx := - 50\<rparr>" and ?b = "touching_b\<lparr>p_vx := 50\<rparr>"
  have d: "100 = sqrt ((p_x far_b - p_x scenario_a)\<^sup>2 + (p_y far_b - p_y scenario_a)\<^sup>2)"
    using real_sqrt_abs [of 100] by (simp add: scenario_a_def far_b_def)
  have r: "0 \<le> p_r scenario_a + p_r far_b \<and> (p_r scenario_a + p_r far_b < 100 \<or> (100 :: real) = 0)"
    by (simp add: scenario_a_def far_b_def)
  have sep: "\<forall>i j. i < j \<and> j < length ?ps \<longrightarrow>
      0 \<le> p_r (?ps ! i) + p_r (?ps ! j)
      \<and> (p_r (?ps ! i) + p_r (?ps ! j)
           < sqrt ((p_x (?ps ! j) - p_x (?ps ! i))\<^sup>2 + (p_y (?ps ! j) - p_y (?ps ! i))\<^sup>2)
         \<or> sqrt ((p_x (?ps ! j) - p_x (?ps ! i))\<^sup>2 + (p_y (?ps ! j) - p_y (?ps ! i))\<^sup>2) = 0)"
  proof (intro allI impI)
    fix i j :: nat
    assume "i < j \<and> j < length ?ps"
    then have ij: "i = 0" "j = 1"
      by auto
    show "0 \<le> p_r (?ps ! i) + p_r (?ps ! j)
      \<and> (p_r (?ps ! i) + p_r (?ps ! j)
           < sqrt ((p_x (?ps ! j) - p_x (?ps ! i))\<^sup>2 + (p_y (?ps ! j) - p_y (?ps ! i))\<^sup>2)
         \<or> sqrt ((p_x (?ps ! j) - p_x (?ps ! i))\<^sup>2 + (p_y (?ps ! j) - p_y (?ps ! i))\<^sup>2) = 0)"
      unfolding ij using r d [symmetric] by (simp add: scenario_a_def far_b_def)
  qed
  note skipped = separated_pairs_skipped [OF d, of ?ps]
  have pair: "resolve_pair scenario_a far_b = Inr (scenario_a, far_b)"
    and two: "resolve_collisions ?ps = Inr ?ps"
    using skipped [THEN conjunct1] r by blast+
  have list: "resolve_collisions ?ps = Inr ?ps"
    using skipped [THEN conjunct2, THEN conjunct2, THEN conjunct1] sep by (rule mp)
  have far: "p_r scenario_a + p_r far_b
     < sqrt ((p_x far_b - p_x scenario_a)\<^sup>2 + (p_y far_b - p_y scenario_a)\<^sup>2)"
    using d [symmetric] by (simp add: scenario_a_def far_b_def)
  have t: "36 = sqrt ((p_x ?b - p_x ?a)\<^sup>2 + (p_y ?b - p_y ?a)\<^sup>2)"
    using real_sqrt_abs [of 36] by (simp add: touching_a_def touching_b_def)
  have c: "36 = p_r ?a + p_r ?b \<and> (0 :: real) < 36 \<and> 0 < p_m ?a \<and> 0 < p_m ?b
        \<and> 0 \<le> (p_vx ?b - p_vx ?a) * (p_x ?b - p_x ?a) + (p_vy ?b - p_vy ?a) * (p_y ?b - p_y ?a)"
    by (simp add: touching_a_def touching_b_def)
  have touch: "resolve_pair ?a ?b = Inr (?a, ?b)"
    using separated_pairs_skipped [OF t, THEN conjunct2, THEN conjunct1] c by blast
  have gap: "sqrt ((p_x ?b - p_x ?a)\<^sup>2 + (p_y ?b - p_y ?a)\<^sup>2) = p_r ?a + p_r ?b"
    using t c by simp
  have u: "36 = sqrt ((p_x touching_b - p_x touching_a)\<^sup>2
      + (p_y touching_b - p_y touching_a)\<^sup>2)"
    using real_sqrt_abs [of 36] by (simp add: touching_a_def touching_b_def)
  have v: "36 = p_r touching_a + p_r touching_b \<and> (0 :: real) < 36
      \<and> 0 < p_m touching_a \<and> 0 < p_m touching_b"
    by (simp add: touching_a_def touching_b_def)
  have "\<exists>a' b'. resolve_pair touching_a touching_b = Inr (a', b')
      \<and> resolve_collisions [touching_a, touching_b] = Inr [a', b']
      \<and> p_x a' = p_x touching_a \<and> p_y a' = p_y touching_a
      \<and> p_x b' = p_x touching_b \<and> p_y b' = p_y touching_b"
    using separated_pairs_skipped [OF u, THEN conjunct2, THEN conjunct2, THEN conjunct2] v
    by (rule mp)
  then have still: "\<exists>a' b'. resolve_collisions [touching_a, touching_b] = Inr [a', b']
      \<and> p_x a' = 100 \<and> p_y a' = 100 \<and> p_x b' = 136 \<and> p_y b' = 100"
    by (auto simp add: touching_a_def touching_b_def)
  show ?thesis
    using far pair list gap touch still by (intro conjI)
qed

text \<open>
  C4, as stated, fails on the code: the handler sets the normal velocity to \<open>\<bar>vx\<bar>\<close> at the
  left wall, so a particle across the wall that already moves away from it keeps its
  velocity, which is not inverted.
\<close>

theorem wall_counterexample:
  "p_x leaving_left - p_r leaving_left < 0
   \<and> handle_wall_collision leaving_left = leaving_left\<lparr>p_x := 18\<rparr>
   \<and> p_vx (handle_wall_collision leaving_left) \<noteq> - p_vx leaving_left"
  by (simp add: handle_wall_collision_def leaving_left_def WIDTH_def HEIGHT_def)

lemma resolve_collisions_single: "resolve_collisions [p] = Inr [p]"
  by (simp add: resolve_collisions_def)

text \<open>
  C4, amended. For a particle no wider than the domain, each edge its extent crosses gets
  the centre clamped back (\<open>x = r\<close>, \<open>x = WIDTH - r\<close>, \<open>y = r\<close>, \<open>y = HEIGHT - r\<close>) and the
  normal velocity pointed into the domain with its magnitude kept (\<open>\<bar>v\<bar>\<close> at the left and
  top, \<open>- \<bar>v\<bar>\<close> at the right and bottom); an edge not crossed changes nothing; afterwards
  the extent is inside the domain. That is a sign flip when the particle moved toward the
  edge. A single particle with \<open>vx = -50\<close> whose extent is across the left wall after the
  integration ends the tick with \<open>x = r\<close> and \<open>vx = 50\<close>.
\<close>

theorem wall_reflection:
  assumes "2 * p_r p \<le> WIDTH" "2 * p_r p \<le> HEIGHT"
  shows
    "(p_x p - p_r p < 0 \<longrightarrow>
        p_x (handle_wall_collision p) = p_r p \<and> p_vx (handle_wall_collision p) = \<bar>p_vx p\<bar>)
     \<and> (WIDTH < p_x p + p_r p \<longrightarrow>
        p_x (handle_wall_collision p) = WIDTH - p_r p
        \<and> p_vx (handle_wall_collision p) = - \<bar>p_vx p\<bar>)
     \<and> (0 \<le> p_x p - p_r p \<and> p_x p + p_r p \<le> WIDTH \<longrightarrow>
        p_x (handle_wall_collision p) = p_x p \<and> p_vx (handle_wall_collision p) = p_vx p)
     \<and> (p_y p - p_r p < 0 \<longrightarrow>
        p_y (handle_wall_collision p) = p_r p \<and> p_vy (handle_wall_collision p) = \<bar>p_vy p\<bar>)
     \<and> (HEIGHT < p_y p + p_r p \<longrightarrow>
        p_y (handle_wall_collision p) = HEIGHT - p_r p
        \<and> p_vy (handle_wall_collision p) = - \<bar>p_vy p\<bar>)
     \<and> (0 \<le> p_y p - p_r p \<and> p_y p + p_r p \<le> HEIGHT \<longrightarrow>
        p_y (handle_wall_collision p) = p_y p \<and> p_vy (handle_wall_collision p) = p_vy p)
     \<and> 0 \<le> p_x (handle_wall_collision p) - p_r p
     \<and> p_x (handle_wall_collision p) + p_r p \<le> WIDTH
     \<and> 0 \<le> p_y (handle_wall_collision p) - p_r p
     \<and> p_y (handle_wall_collision p) + p_r p \<le> HEIGHT
     \<and> \<bar>p_vx (handle_wall_collision p)\<bar> = \<bar>p_vx p\<bar>
     \<and> \<bar>p_vy (handle_wall_collision p)\<bar> = \<bar>p_vy p\<bar>
     \<and> (p_x p - p_r p < 0 \<and> p_vx p \<le> 0 \<longrightarrow> p_vx (handle_wall_collision p) = - p_vx p)
     \<and> (WIDTH < p_x p + p_r p \<and> 0 \<le> p_vx p \<longrightarrow> p_vx (handle_wall_collision p) = - p_vx p)
     \<and> (p_y p - p_r p < 0 \<and> p_vy p \<le> 0 \<longrightarrow> p_vy (handle_wall_collision p) = - p_vy p)
     \<and> (HEIGHT < p_y p + p_r p \<and> 0 \<le> p_vy p \<longrightarrow> p_vy (handle_wall_collision p) = - p_vy p)
     \<and> (p_x (integrate dt p) - p_r p < 0 \<and> p_vx p = - 50 \<longrightarrow>
        (\<exists>q. e_step dt [p] = Inr [q] \<and> p_x q = p_r p \<and> p_vx q = 50))"
proof -
  let ?q = "handle_wall_collision p"
  have x: "p_x ?q = (if p_x p - p_r p < 0 then p_r p
                     else if WIDTH < p_x p + p_r p then WIDTH - p_r p else p_x p)"
    and vx: "p_vx ?q = (if p_x p - p_r p < 0 then \<bar>p_vx p\<bar>
                     else if WIDTH < p_x p + p_r p then - \<bar>p_vx p\<bar> else p_vx p)"
    using assms(1) by (simp_all add: handle_wall_collision_def Let_def)
  have y: "p_y ?q = (if p_y p - p_r p < 0 then p_r p
                     else if HEIGHT < p_y p + p_r p then HEIGHT - p_r p else p_y p)"
    and vy: "p_vy ?q = (if p_y p - p_r p < 0 then \<bar>p_vy p\<bar>
                     else if HEIGHT < p_y p + p_r p then - \<bar>p_vy p\<bar> else p_vy p)"
    using assms
    by (cases "p_x p - p_r p < 0"; cases "WIDTH < p_x p + p_r p";
        simp add: handle_wall_collision_def Let_def)+
  have left: "p_x p - p_r p < 0 \<longrightarrow> p_x ?q = p_r p \<and> p_vx ?q = \<bar>p_vx p\<bar>"
    by (simp add: x vx)
  have right: "WIDTH < p_x p + p_r p \<longrightarrow> p_x ?q = WIDTH - p_r p \<and> p_vx ?q = - \<bar>p_vx p\<bar>"
    using assms(1) by (simp add: x vx)
  have inside_x: "0 \<le> p_x p - p_r p \<and> p_x p + p_r p \<le> WIDTH \<longrightarrow>
      p_x ?q = p_x p \<and> p_vx ?q = p_vx p"
    by (simp add: x vx)
  have top: "p_y p - p_r p < 0 \<longrightarrow> p_y ?q = p_r p \<and> p_vy ?q = \<bar>p_vy p\<bar>"
    by (simp add: y vy)
  have bottom: "HEIGHT < p_y p + p_r p \<longrightarrow> p_y ?q = HEIGHT - p_r p \<and> p_vy ?q = - \<bar>p_vy p\<bar>"
    using assms(2) by (simp add: y vy)
  have inside_y: "0 \<le> p_y p - p_r p \<and> p_y p + p_r p \<le> HEIGHT \<longrightarrow>
      p_y ?q = p_y p \<and> p_vy ?q = p_vy p"
    by (simp add: y vy)
  have clamped: "0 \<le> p_x ?q - p_r p" "p_x ?q + p_r p \<le> WIDTH"
    "0 \<le> p_y ?q - p_r p" "p_y ?q + p_r p \<le> HEIGHT"
    using assms by (simp_all add: x y)
  have magnitude: "\<bar>p_vx ?q\<bar> = \<bar>p_vx p\<bar>" "\<bar>p_vy ?q\<bar> = \<bar>p_vy p\<bar>"
    by (simp_all add: vx vy)
  have flip: "p_x p - p_r p < 0 \<and> p_vx p \<le> 0 \<longrightarrow> p_vx ?q = - p_vx p"
    "WIDTH < p_x p + p_r p \<and> 0 \<le> p_vx p \<longrightarrow> p_vx ?q = - p_vx p"
    "p_y p - p_r p < 0 \<and> p_vy p \<le> 0 \<longrightarrow> p_vy ?q = - p_vy p"
    "HEIGHT < p_y p + p_r p \<and> 0 \<le> p_vy p \<longrightarrow> p_vy ?q = - p_vy p"
    using assms by (simp_all add: vx vy)
  have tick: "\<exists>q. e_step dt [p] = Inr [q] \<and> p_x q = p_r p \<and> p_vx q = 50"
    if "p_x (integrate dt p) - p_r p < 0" "p_vx p = - 50"
  proof -
    let ?i = "integrate dt p"
    have i: "p_r ?i = p_r p" "p_vx ?i = - 50"
      using that(2) by (simp_all add: integrate_def FRICTION_def)
    have "p_x (handle_wall_collision ?i) = p_r p \<and> p_vx (handle_wall_collision ?i) = 50"
      using that(1) assms(1) i by (simp add: handle_wall_collision_def Let_def)
    then show ?thesis
      by (simp add: e_step_def resolve_collisions_single)
  qed
  have after_tick: "p_x (integrate dt p) - p_r p < 0 \<and> p_vx p = - 50 \<longrightarrow>
      (\<exists>q. e_step dt [p] = Inr [q] \<and> p_x q = p_r p \<and> p_vx q = 50)"
    using tick by blast
  show ?thesis
    using left right inside_x top bottom inside_y clamped magnitude flip after_tick
    by (intro conjI) assumption+
qed

text \<open>The particle moving toward the left wall at \<open>vx = -50\<close>, with \<open>x - r = -13\<close>.\<close>

theorem wall_reflection_witness:
  "2 * p_r approaching_left \<le> WIDTH \<and> 2 * p_r approaching_left \<le> HEIGHT
   \<and> p_x approaching_left - p_r approaching_left < 0
   \<and> p_x (handle_wall_collision approaching_left) = 18
   \<and> p_vx (handle_wall_collision approaching_left) = 50
   \<and> p_y (handle_wall_collision approaching_left) = 300"
  using wall_reflection [of approaching_left 0]
  by (simp add: approaching_left_def WIDTH_def HEIGHT_def)

section \<open>The integrator in the tick\<close>

text \<open>A particle whose extent is inside the domain passes the wall handler unchanged.\<close>

lemma handle_wall_collision_inside:
  assumes "0 \<le> p_x p - p_r p" "p_x p + p_r p \<le> WIDTH"
    "0 \<le> p_y p - p_r p" "p_y p + p_r p \<le> HEIGHT"
  shows "handle_wall_collision p = p"
  using assms by (simp add: handle_wall_collision_def Let_def not_less [symmetric])

text \<open>The fields of a particle after the integration of \<open>_step\<close>.\<close>

lemma integrate_fields:
  "p_vx (integrate dt q) = p_vx q + 0 * dt"
  "p_vy (integrate dt q) = p_vy q + GRAVITY * dt"
  "p_x (integrate dt q) = p_x q + p_vx (integrate dt q) * dt"
  "p_y (integrate dt q) = p_y q + p_vy (integrate dt q) * dt"
  "p_x (integrate dt q) = p_x q + p_vx q * dt"
  "p_r (integrate dt q) = p_r q" "p_m (integrate dt q) = p_m q"
  by (simp_all add: integrate_def FRICTION_def)

text \<open>
  C1. In both programs the velocity is updated first, from the acceleration at the position
  before the update, and the position second, from the velocity just updated, for every
  particle of every tick. In bh.py the acceleration is \<open>compute_acceleration\<close> at the old
  position, read once by \<open>advance\<close>; the loop of \<open>step\<close> advances every particle of the list
  once, and the particles \<open>step\<close> leaves are the advanced ones that were not captured. In
  e.py the acceleration is \<open>(0, GRAVITY)\<close>; the tick \<open>_step\<close> of one particle leaves it
  integrated and passed through the wall handler, which changes nothing inside the domain,
  and the tick of a list leaves every particle so when the resolver finds no pair to
  resolve. Where the acceleration is zero (in bh.py at the centre, in e.py along \<open>x\<close>) the
  new position is \<open>pos + vel * dt\<close> and the velocity is unchanged, also after the whole tick
  of a particle that is not captured.
\<close>

theorem symplectic_euler_order:
  "bh_vx (advance s p) = bh_vx p + fst (compute_acceleration s (bh_x p) (bh_y p)) * bh_dt s
   \<and> bh_vy (advance s p) = bh_vy p + snd (compute_acceleration s (bh_x p) (bh_y p)) * bh_dt s
   \<and> bh_x (advance s p) = bh_x p + bh_vx (advance s p) * bh_dt s
   \<and> bh_y (advance s p) = bh_y p + bh_vy (advance s p) * bh_dt s
   \<and> fst (step_loop s ps) = map (advance s) ps
   \<and> bh_particles (step s) = filter (\<lambda>r. \<not> captured s r) (map (advance s) (bh_particles s))
   \<and> (p \<in> set (bh_particles s) \<and> \<not> captured s (advance s p) \<longrightarrow>
        advance s p \<in> set (bh_particles (step s)))
   \<and> (compute_acceleration s (bh_x p) (bh_y p) = (0, 0) \<longrightarrow>
        bh_x (advance s p) = bh_x p + bh_vx p * bh_dt s
        \<and> bh_y (advance s p) = bh_y p + bh_vy p * bh_dt s
        \<and> bh_vx (advance s p) = bh_vx p \<and> bh_vy (advance s p) = bh_vy p)
   \<and> (bh_particles s = [p] \<and> compute_acceleration s (bh_x p) (bh_y p) = (0, 0)
        \<and> \<not> captured s (advance s p) \<longrightarrow>
        (\<exists>r. bh_particles (step s) = [r]
           \<and> bh_x r = bh_x p + bh_vx p * bh_dt s \<and> bh_y r = bh_y p + bh_vy p * bh_dt s
           \<and> bh_vx r = bh_vx p \<and> bh_vy r = bh_vy p))
   \<and> p_vx (integrate dt q) = p_vx q + 0 * dt
   \<and> p_vy (integrate dt q) = p_vy q + GRAVITY * dt
   \<and> p_x (integrate dt q) = p_x q + p_vx (integrate dt q) * dt
   \<and> p_y (integrate dt q) = p_y q + p_vy (integrate dt q) * dt
   \<and> p_x (integrate dt q) = p_x q + p_vx q * dt
   \<and> e_step dt [q] = Inr [handle_wall_collision (integrate dt q)]
   \<and> (0 \<le> p_x (integrate dt q) - p_r q \<and> p_x (integrate dt q) + p_r q \<le> WIDTH
        \<and> 0 \<le> p_y (integrate dt q) - p_r q \<and> p_y (integrate dt q) + p_r q \<le> HEIGHT \<longrightarrow>
        e_step dt [q] = Inr [integrate dt q])
   \<and> ((\<forall>i j. i < j \<and> j < length qs \<longrightarrow>
          resolve_pair (handle_wall_collision (integrate dt (qs ! i)))
              (handle_wall_collision (integrate dt (qs ! j)))
            = Inr (handle_wall_collision (integrate dt (qs ! i)),
                   handle_wall_collision (integrate dt (qs ! j)))) \<longrightarrow>
        e_step dt qs = Inr (map (\<lambda>q. handle_wall_collision (integrate dt q)) qs))
   \<and> e_step dt qs = resolve_collisions (map (\<lambda>q. handle_wall_collision (integrate dt q)) qs)"
proof -
  have tick: "bh_particles (step s)
      = filter (\<lambda>r. \<not> captured s r) (map (advance s) (bh_particles s))"
    by (rule step_particles)
  have kept: "p \<in> set (bh_particles s) \<and> \<not> captured s (advance s p) \<longrightarrow>
        advance s p \<in> set (bh_particles (step s))"
    unfolding tick by simp
  have zero: "compute_acceleration s (bh_x p) (bh_y p) = (0, 0) \<longrightarrow>
        bh_x (advance s p) = bh_x p + bh_vx p * bh_dt s
        \<and> bh_y (advance s p) = bh_y p + bh_vy p * bh_dt s
        \<and> bh_vx (advance s p) = bh_vx p \<and> bh_vy (advance s p) = bh_vy p"
    by (simp add: advance_fields)
  have zero_tick: "bh_particles s = [p] \<and> compute_acceleration s (bh_x p) (bh_y p) = (0, 0)
        \<and> \<not> captured s (advance s p) \<longrightarrow>
        (\<exists>r. bh_particles (step s) = [r]
           \<and> bh_x r = bh_x p + bh_vx p * bh_dt s \<and> bh_y r = bh_y p + bh_vy p * bh_dt s
           \<and> bh_vx r = bh_vx p \<and> bh_vy r = bh_vy p)"
  proof
    assume h: "bh_particles s = [p] \<and> compute_acceleration s (bh_x p) (bh_y p) = (0, 0)
        \<and> \<not> captured s (advance s p)"
    then have "bh_particles (step s) = [advance s p]"
      unfolding tick by simp
    with h zero show "\<exists>r. bh_particles (step s) = [r]
           \<and> bh_x r = bh_x p + bh_vx p * bh_dt s \<and> bh_y r = bh_y p + bh_vy p * bh_dt s
           \<and> bh_vx r = bh_vx p \<and> bh_vy r = bh_vy p"
      by simp
  qed
  have one: "e_step dt [q] = Inr [handle_wall_collision (integrate dt q)]"
    by (simp add: e_step_def resolve_collisions_single)
  have inside: "0 \<le> p_x (integrate dt q) - p_r q \<and> p_x (integrate dt q) + p_r q \<le> WIDTH
        \<and> 0 \<le> p_y (integrate dt q) - p_r q \<and> p_y (integrate dt q) + p_r q \<le> HEIGHT \<longrightarrow>
        e_step dt [q] = Inr [integrate dt q]"
  proof
    assume "0 \<le> p_x (integrate dt q) - p_r q \<and> p_x (integrate dt q) + p_r q \<le> WIDTH
        \<and> 0 \<le> p_y (integrate dt q) - p_r q \<and> p_y (integrate dt q) + p_r q \<le> HEIGHT"
    then have "handle_wall_collision (integrate dt q) = integrate dt q"
      by (intro handle_wall_collision_inside) (simp_all add: integrate_fields(6))
    with one show "e_step dt [q] = Inr [integrate dt q]"
      by simp
  qed
  have many: "e_step dt qs = Inr (map (\<lambda>q. handle_wall_collision (integrate dt q)) qs)"
    if sep: "\<forall>i j. i < j \<and> j < length qs \<longrightarrow>
          resolve_pair (handle_wall_collision (integrate dt (qs ! i)))
              (handle_wall_collision (integrate dt (qs ! j)))
            = Inr (handle_wall_collision (integrate dt (qs ! i)),
                   handle_wall_collision (integrate dt (qs ! j)))"
  proof -
    let ?ps = "map (\<lambda>q. handle_wall_collision (integrate dt q)) qs"
    have inner: "resolve_inner i [i + 1 ..< length ?ps] ?ps = Inr ?ps" if "i < length ?ps" for i
    proof (rule resolve_inner_skip [OF that], rule ballI)
      fix j assume "j \<in> set [i + 1 ..< length ?ps]"
      then have ij: "i < j" "j < length qs" by simp_all
      with sep show "j < length ?ps \<and> resolve_pair (?ps ! i) (?ps ! j) = Inr (?ps ! i, ?ps ! j)"
        by simp
    qed
    have "resolve_collisions ?ps = Inr ?ps"
      unfolding resolve_collisions_def Let_def
    proof (rule resolve_outer_skip, rule ballI)
      fix i assume "i \<in> set [0 ..< length ?ps]"
      then have "i < length ?ps" by simp
      then show "resolve_inner i [i + 1 ..< length ?ps] ?ps = Inr ?ps" by (rule inner)
    qed
    then show ?thesis
      by (simp add: e_step_def)
  qed
  have unfolded: "e_step dt qs
      = resolve_collisions (map (\<lambda>q. handle_wall_collision (integrate dt q)) qs)"
    by (simp add: e_step_def)
  show ?thesis
    using advance_fields [of s p] step_loop_eq [of s ps] tick kept zero zero_tick
      integrate_fields(1-5) [of dt q] one inside many unfolded
    by (intro conjI impI) simp_all
qed

lemma sqrt_10000: "sqrt 10000 = 100"
  using real_sqrt_abs [of 100] by simp

text \<open>
  A tracer at the centre of the default window, fast enough to leave the absorption radius
  in one tick: after \<open>step\<close> it is at \<open>pos + vel * dt = (600, 350)\<close> with its velocity
  unchanged. The scenario's first particle after one tick of e.py at \<open>dt = 0.016\<close>.
\<close>

theorem symplectic_euler_order_witness:
  "bh_particles (add_particle (bh_init (\<lambda>i. 0)) 500 350 6000 0)
     = [\<lparr>bh_x = 500, bh_y = 350, bh_vx = 6000, bh_vy = 0, bh_color = PARTICLE_COLOR,
         bh_trail = []\<rparr>]
   \<and> compute_acceleration (add_particle (bh_init (\<lambda>i. 0)) 500 350 6000 0) 500 350 = (0, 0)
   \<and> (\<exists>r. bh_particles (step (add_particle (bh_init (\<lambda>i. 0)) 500 350 6000 0)) = [r]
        \<and> bh_x r = 500 + 6000 * (1 / 60) \<and> bh_y r = 350 + 0 * (1 / 60)
        \<and> bh_vx r = 6000 \<and> bh_vy r = 0)
   \<and> e_step 0.016 [scenario_a] = Inr [integrate 0.016 scenario_a]
   \<and> p_x (integrate 0.016 scenario_a) = 100 + 50 * 0.016"
proof -
  let ?p = "\<lparr>bh_x = 500, bh_y = 350, bh_vx = 6000, bh_vy = 0, bh_color = PARTICLE_COLOR,
         bh_trail = []\<rparr>"
  let ?s = "add_particle (bh_init (\<lambda>i. 0)) 500 350 6000 0"
  have ps: "bh_particles ?s = [?p]"
    by (simp add: add_particle_def bh_init_def)
  have fields: "bh_width ?s = 1000" "bh_height ?s = 700" "bh_M ?s = 40" "bh_dt ?s = 1 / 60"
    by (simp_all add: add_particle_def bh_init_def BH_WIDTH_def BH_HEIGHT_def FPS_def)
  have zero: "compute_acceleration ?s (bh_x ?p) (bh_y ?p) = (0, 0)"
    by (simp add: compute_acceleration_def center_def fields hypot_def)
  note inst = symplectic_euler_order [where s = ?s and p = ?p and dt = "0.016" and q = scenario_a
      and ps = "[]" and qs = "[]"]
  have x: "bh_x (advance ?s ?p) = 600" and y: "bh_y (advance ?s ?p) = 350"
    using inst zero by (simp_all add: fields)
  have free: "\<not> captured ?s (advance ?s ?p)"
    by (simp add: captured_def center_def schwarzschild_radius_def fields x y hypot_def
        sqrt_10000)
  have bh: "\<exists>r. bh_particles (step ?s) = [r]
        \<and> bh_x r = 500 + 6000 * (1 / 60) \<and> bh_y r = 350 + 0 * (1 / 60)
        \<and> bh_vx r = 6000 \<and> bh_vy r = 0"
    using inst ps zero free by (simp add: fields)
  have i: "p_x (integrate 0.016 scenario_a) = 100 + 50 * 0.016"
    "p_y (integrate 0.016 scenario_a) = 100 + (0 + GRAVITY * 0.016) * 0.016"
    using inst by (simp_all add: scenario_a_def)
  have "0 \<le> p_x (integrate 0.016 scenario_a) - p_r scenario_a
      \<and> p_x (integrate 0.016 scenario_a) + p_r scenario_a \<le> WIDTH
      \<and> 0 \<le> p_y (integrate 0.016 scenario_a) - p_r scenario_a
      \<and> p_y (integrate 0.016 scenario_a) + p_r scenario_a \<le> HEIGHT"
    unfolding i by (simp add: scenario_a_def GRAVITY_def WIDTH_def HEIGHT_def)
  with inst have e: "e_step 0.016 [scenario_a] = Inr [integrate 0.016 scenario_a]"
    by blast
  show ?thesis
    using ps zero bh e i(1) by simp
qed

section \<open>The tick, the speed and the generator\<close>

text \<open>
  What the tick of bh.py reads and writes: it changes the particle list only, and the new
  list depends on the old one, the mass, the time step, the window size and the trail
  length.
\<close>

lemma step_frame: "step s = s\<lparr>bh_particles := bh_particles (step s)\<rparr>"
  by (simp add: step_def split_beta)

lemma advance_depends:
  assumes "bh_M s1 = bh_M s2" "bh_dt s1 = bh_dt s2" "bh_width s1 = bh_width s2"
    "bh_height s1 = bh_height s2" "bh_trail_length s1 = bh_trail_length s2"
  shows "advance s1 = advance s2" and "captured s1 = captured s2"
proof -
  have acc: "compute_acceleration s1 = compute_acceleration s2"
    unfolding fun_eq_iff compute_acceleration_def center_def assms by simp
  show "advance s1 = advance s2"
    unfolding fun_eq_iff advance_def acc assms by simp
  show "captured s1 = captured s2"
    unfolding fun_eq_iff captured_def center_def schwarzschild_radius_def assms by simp
qed

lemma step_depends:
  assumes "bh_particles s1 = bh_particles s2"
    "bh_M s1 = bh_M s2" "bh_dt s1 = bh_dt s2" "bh_width s1 = bh_width s2"
    "bh_height s1 = bh_height s2" "bh_trail_length s1 = bh_trail_length s2"
  shows "bh_particles (step s1) = bh_particles (step s2)"
  using advance_depends [OF assms(2-6)] assms(1) by (simp add: step_particles)

text \<open>\<open>random.uniform\<close> takes one output off the generator and changes nothing else.\<close>

lemma uniform_fields:
  "bh_random (snd (uniform a b s)) = (\<lambda>i. bh_random s (Suc i))"
  "snd (uniform a b s) = s\<lparr>bh_random := bh_random (snd (uniform a b s))\<rparr>"
  by (simp_all add: uniform_def)

text \<open>
  The speed multiplier, the base step and the time step under each command: only the two
  bracket keys write them, the spawning commands raise nothing for a mass that is not
  negative, and the bound \<open>0.125\<close> is kept from \<open>__init__\<close> on.
\<close>

lemma step_timing:
  "bh_speed_mult (step s) = bh_speed_mult s" "bh_base_dt (step s) = bh_base_dt s"
  "bh_dt (step s) = bh_dt s" "bh_M (step s) = bh_M s" "bh_random (step s) = bh_random s"
  "bh_paused (step s) = bh_paused s"
  by (simp_all add: step_def split_beta)

lemma spawn_one_timing:
  assumes "spawn_one cx cy a b s = Inr s'"
  shows "bh_speed_mult s' = bh_speed_mult s \<and> bh_base_dt s' = bh_base_dt s
    \<and> bh_dt s' = bh_dt s \<and> bh_M s' = bh_M s"
  using assms
  by (auto simp add: spawn_one_def uniform_def add_particle_def Let_def split_beta
      split: if_splits)

lemma spawn_one_succeeds:
  assumes "0 \<le> bh_M s"
  shows "\<exists>s'. spawn_one cx cy a b s = Inr s'"
proof -
  have "0 \<le> G * bh_M s / max (a + (b - a) * bh_random s 0) 0.001"
    using assms by (simp add: G_def)
  then show ?thesis
    by (simp add: spawn_one_def uniform_def Let_def split_beta not_less [symmetric])
qed

lemma spawn_loop_timing:
  "spawn_loop n cx cy a b s = Inr s' \<Longrightarrow>
     bh_speed_mult s' = bh_speed_mult s \<and> bh_base_dt s' = bh_base_dt s
     \<and> bh_dt s' = bh_dt s \<and> bh_M s' = bh_M s"
proof (induction n arbitrary: s)
  case 0
  then show ?case by simp
next
  case (Suc n)
  then obtain s1 where one: "spawn_one cx cy a b s = Inr s1"
    and rest: "spawn_loop n cx cy a b s1 = Inr s'"
    by (auto split: sum.splits)
  from Suc.IH [OF rest] spawn_one_timing [OF one] show ?case
    by simp
qed

lemma spawn_loop_succeeds:
  "0 \<le> bh_M s \<Longrightarrow> \<exists>s'. spawn_loop n cx cy a b s = Inr s'"
proof (induction n arbitrary: s)
  case 0
  then show ?case by simp
next
  case (Suc n)
  from spawn_one_succeeds [OF Suc.prems]
  obtain s1 where one: "spawn_one cx cy a b s = Inr s1"
    by blast
  with spawn_one_timing [OF one] Suc.prems have "0 \<le> bh_M s1"
    by simp
  from Suc.IH [OF this] one show ?case
    by simp
qed

lemma spawn_random_cloud_timing:
  "spawn_random_cloud n a b s = Inr s' \<Longrightarrow>
     bh_speed_mult s' = bh_speed_mult s \<and> bh_base_dt s' = bh_base_dt s
     \<and> bh_dt s' = bh_dt s \<and> bh_M s' = bh_M s"
  by (simp add: spawn_random_cloud_def split_beta spawn_loop_timing)

lemma spawn_random_cloud_succeeds:
  "0 \<le> bh_M s \<Longrightarrow> \<exists>s'. spawn_random_cloud n a b s = Inr s'"
  by (simp add: spawn_random_cloud_def split_beta spawn_loop_succeeds)

lemma mouse_release_timing:
  assumes "mouse_release pos start s = Inr s'"
  shows "bh_speed_mult s' = bh_speed_mult s \<and> bh_base_dt s' = bh_base_dt s
    \<and> bh_dt s' = bh_dt s"
  using assms
  by (auto simp add: mouse_release_def uniform_def add_particle_def Let_def split_beta
      split: if_splits)

lemma keydown_speed:
  assumes "keydown k shift s = Inr s'" "0.125 \<le> bh_speed_mult s"
  shows "0.125 \<le> bh_speed_mult s' \<and> bh_base_dt s' = bh_base_dt s
    \<and> (bh_dt s = bh_base_dt s * bh_speed_mult s \<longrightarrow>
         bh_dt s' = bh_base_dt s' * bh_speed_mult s')"
proof (cases k)
  case K_r
  with assms spawn_random_cloud_timing [of 60 120 320 s s'] show ?thesis
    by simp
next
  case K_n
  with assms show ?thesis
    by (auto simp add: step_timing)
qed (use assms in \<open>auto simp add: Let_def\<close>)

lemma handle_event_speed:
  assumes "handle_event ev s = Inr s'" "0.125 \<le> bh_speed_mult s"
  shows "0.125 \<le> bh_speed_mult s' \<and> bh_base_dt s' = bh_base_dt s
    \<and> (bh_dt s = bh_base_dt s * bh_speed_mult s \<longrightarrow>
         bh_dt s' = bh_base_dt s' * bh_speed_mult s')"
proof (cases ev)
  case (KEYDOWN k shift)
  with assms keydown_speed [of k shift s s'] show ?thesis
    by simp
next
  case (MOUSEBUTTONUP pos)
  show ?thesis
  proof (cases "bh_dragging s \<and> bh_drag_start s \<noteq> None")
    case True
    then obtain start where "bh_drag_start s = Some start"
      by blast
    with True assms MOUSEBUTTONUP have "mouse_release pos start s = Inr s'"
      by simp
    from mouse_release_timing [OF this] assms(2) show ?thesis
      by simp
  next
    case False
    with assms MOUSEBUTTONUP have "s' = s"
      by (auto split: option.splits)
    with assms(2) show ?thesis
      by simp
  qed
qed (use assms in auto)

lemma handle_events_speed:
  "handle_events evs s = Inr s' \<Longrightarrow> 0.125 \<le> bh_speed_mult s \<Longrightarrow>
     0.125 \<le> bh_speed_mult s' \<and> bh_base_dt s' = bh_base_dt s"
proof (induction evs arbitrary: s)
  case Nil
  then show ?case by simp
next
  case (Cons ev evs)
  then obtain s1 where one: "handle_event ev s = Inr s1"
    and rest: "handle_events evs s1 = Inr s'"
    by (auto split: sum.splits)
  from handle_event_speed [OF one Cons.prems(2)] Cons.IH [OF rest] show ?case
    by simp
qed

lemma frame_speed:
  assumes "frame evs s = Inr s'" "0.125 \<le> bh_speed_mult s"
  shows "0.125 \<le> bh_speed_mult s' \<and> bh_base_dt s' = bh_base_dt s
    \<and> bh_dt s' = bh_base_dt s' * bh_speed_mult s'"
proof -
  from assms(1) obtain s1 where evs: "handle_events evs s = Inr s1"
    and s': "s' = (if \<not> bh_paused s1 then step (s1\<lparr>bh_dt := bh_base_dt s1 * bh_speed_mult s1\<rparr>)
                   else s1\<lparr>bh_dt := bh_base_dt s1 * bh_speed_mult s1\<rparr>)"
    by (auto simp add: frame_def Let_def split: sum.splits)
  from handle_events_speed [OF evs assms(2)] show ?thesis
    by (simp add: s' step_timing)
qed

lemma reachable_speed:
  "reachable s \<Longrightarrow>
     0.125 \<le> bh_speed_mult s \<and> bh_base_dt s = 1 / FPS
     \<and> bh_dt s = bh_base_dt s * bh_speed_mult s"
proof (induction rule: reachable.induct)
  case (start g s)
  from spawn_random_cloud_timing [OF this] show ?case
    by (simp add: bh_init_def)
next
  case (next_frame s evs s')
  from frame_speed [OF next_frame.hyps(3)] next_frame.IH show ?case
    by simp
qed

text \<open>The same for e.py, where \<open>_change_speed\<close> clamps after every change.\<close>

lemma change_speed_range:
  "0.1 \<le> e_speed (change_speed factor t)" "e_speed (change_speed factor t) \<le> 10"
  "e_dt (change_speed factor t) = e_dt t"
  by (simp_all add: change_speed_def Let_def)

lemma e_reachable_speed:
  "e_reachable t \<Longrightarrow> 0.1 \<le> e_speed t \<and> e_speed t \<le> 10 \<and> e_dt t = 0.016"
proof (induction rule: e_reachable.induct)
  case (init ps)
  show ?case by (simp add: e_init_def)
next
  case (speed s factor)
  with change_speed_range [of factor s] show ?case by simp
next
  case (toggled s)
  then show ?case by (simp add: toggle_def)
next
  case (tick s s')
  then show ?case by (auto simp add: loop_def split: if_splits sum.splits)
next
  case (edited s ps)
  then show ?case by simp
qed

text \<open>
  C9. In bh.py every state \<open>run\<close> reaches has a speed multiplier of at least 0.125 and a
  time step \<open>dt = base_dt * speed_mult\<close> that is positive; every event keeps the bound, the
  key \<open>[\<close> clamps at 0.125 and the key \<open>]\<close> doubles. In e.py \<open>_change_speed\<close> leaves the speed
  in \<open>[0.1, 10]\<close> for any factor and any state, and every state the program reaches has
  its speed in that range and a positive effective step \<open>dt * speed\<close>.
\<close>

theorem speed_multiplier_clamped:
  "(reachable s \<longrightarrow>
      0.125 \<le> bh_speed_mult s \<and> bh_dt s = bh_base_dt s * bh_speed_mult s \<and> 0 < bh_dt s)
   \<and> (0.125 \<le> bh_speed_mult s \<and> handle_event ev s = Inr s' \<longrightarrow> 0.125 \<le> bh_speed_mult s')
   \<and> (reachable s \<and> frame evs s = Inr s' \<longrightarrow>
      0.125 \<le> bh_speed_mult s' \<and> bh_dt s' = bh_base_dt s' * bh_speed_mult s' \<and> 0 < bh_dt s')
   \<and> (\<exists>u. keydown K_LEFTBRACKET shift s = Inr u \<and> 0.125 \<le> bh_speed_mult u
        \<and> bh_speed_mult u = max 0.125 (bh_speed_mult s / 2)
        \<and> bh_dt u = bh_base_dt u * bh_speed_mult u)
   \<and> (\<exists>u. keydown K_RIGHTBRACKET shift s = Inr u \<and> bh_speed_mult u = bh_speed_mult s * 2
        \<and> bh_dt u = bh_base_dt u * bh_speed_mult u)
   \<and> 0.1 \<le> e_speed (change_speed factor t) \<and> e_speed (change_speed factor t) \<le> 10
   \<and> (e_reachable t \<longrightarrow> 0.1 \<le> e_speed t \<and> e_speed t \<le> 10 \<and> 0 < e_dt t * e_speed t)"
proof -
  have positive: "0 < bh_dt u"
    if "0.125 \<le> bh_speed_mult u" "bh_base_dt u = 1 / FPS"
      "bh_dt u = bh_base_dt u * bh_speed_mult u" for u
    using that by (simp add: FPS_def)
  have a: "reachable s \<longrightarrow>
      0.125 \<le> bh_speed_mult s \<and> bh_dt s = bh_base_dt s * bh_speed_mult s \<and> 0 < bh_dt s"
    using reachable_speed [of s] positive [of s] by blast
  have b: "0.125 \<le> bh_speed_mult s \<and> handle_event ev s = Inr s' \<longrightarrow> 0.125 \<le> bh_speed_mult s'"
    using handle_event_speed [of ev s s'] by blast
  have c: "reachable s \<and> frame evs s = Inr s' \<longrightarrow>
      0.125 \<le> bh_speed_mult s' \<and> bh_dt s' = bh_base_dt s' * bh_speed_mult s' \<and> 0 < bh_dt s'"
  proof
    assume r: "reachable s \<and> frame evs s = Inr s'"
    with reachable_speed [of s] have s: "0.125 \<le> bh_speed_mult s" "bh_base_dt s = 1 / FPS"
      by simp_all
    from r frame_speed [OF _ s(1), of evs s'] have s': "0.125 \<le> bh_speed_mult s'"
      "bh_base_dt s' = bh_base_dt s" "bh_dt s' = bh_base_dt s' * bh_speed_mult s'"
      by simp_all
    with s(2) positive [of s'] show "0.125 \<le> bh_speed_mult s'
      \<and> bh_dt s' = bh_base_dt s' * bh_speed_mult s' \<and> 0 < bh_dt s'"
      by simp
  qed
  have d: "\<exists>u. keydown K_LEFTBRACKET shift s = Inr u \<and> 0.125 \<le> bh_speed_mult u
        \<and> bh_speed_mult u = max 0.125 (bh_speed_mult s / 2)
        \<and> bh_dt u = bh_base_dt u * bh_speed_mult u"
    by (simp add: Let_def)
  have e: "\<exists>u. keydown K_RIGHTBRACKET shift s = Inr u \<and> bh_speed_mult u = bh_speed_mult s * 2
        \<and> bh_dt u = bh_base_dt u * bh_speed_mult u"
    by (simp add: Let_def)
  have f: "0.1 \<le> e_speed (change_speed factor t)" "e_speed (change_speed factor t) \<le> 10"
    by (rule change_speed_range)+
  have g: "e_reachable t \<longrightarrow> 0.1 \<le> e_speed t \<and> e_speed t \<le> 10 \<and> 0 < e_dt t * e_speed t"
  proof
    assume "e_reachable t"
    from e_reachable_speed [OF this]
    show "0.1 \<le> e_speed t \<and> e_speed t \<le> 10 \<and> 0 < e_dt t * e_speed t"
      by simp
  qed
  show ?thesis
    using a b c d e f g by (intro conjI)
qed

text \<open>
  A state \<open>run\<close> starts from (the first cloud, on a generator that gives zeros) and a frame
  with the key \<open>[\<close> after it; the key \<open>[\<close> on the state of \<open>__init__\<close>, which halves the speed;
  and e.py after one press of the Down key.
\<close>

theorem speed_multiplier_clamped_witness:
  "(\<exists>s. reachable s \<and> 0.125 \<le> bh_speed_mult s \<and> 0 < bh_dt s
        \<and> (\<exists>s'. frame [KEYDOWN K_LEFTBRACKET False] s = Inr s' \<and> 0.125 \<le> bh_speed_mult s'
               \<and> 0 < bh_dt s'))
   \<and> 0.125 \<le> bh_speed_mult (bh_init (\<lambda>i. 0))
   \<and> handle_event (KEYDOWN K_LEFTBRACKET False) (bh_init (\<lambda>i. 0))
       = Inr ((bh_init (\<lambda>i. 0))\<lparr>bh_speed_mult := 0.5, bh_dt := 1 / 120\<rparr>)
   \<and> 0.125 \<le> bh_speed_mult ((bh_init (\<lambda>i. 0))\<lparr>bh_speed_mult := 0.5, bh_dt := 1 / 120\<rparr>)
   \<and> e_reachable (change_speed 0.9 (e_init []))
   \<and> 0.1 \<le> e_speed (change_speed 0.9 (e_init []))
   \<and> 0 < e_dt (change_speed 0.9 (e_init [])) * e_speed (change_speed 0.9 (e_init []))"
proof -
  let ?i = "bh_init (\<lambda>i. 0)"
  let ?k = "KEYDOWN K_LEFTBRACKET False"
  have "0 \<le> bh_M ?i"
    by (simp add: bh_init_def)
  from spawn_random_cloud_succeeds [OF this]
  obtain s where "spawn_random_cloud 80 120 320 ?i = Inr s"
    by blast
  then have r: "reachable s"
    by (rule reachable.start)
  obtain s' where f: "frame [?k] s = Inr s'"
    by (simp add: frame_def Let_def)
  from r f speed_multiplier_clamped [of s _ s' "[?k]"]
  have "0.125 \<le> bh_speed_mult s \<and> 0 < bh_dt s" "0.125 \<le> bh_speed_mult s' \<and> 0 < bh_dt s'"
    by blast+
  with r f have bh: "\<exists>s. reachable s \<and> 0.125 \<le> bh_speed_mult s \<and> 0 < bh_dt s
        \<and> (\<exists>s'. frame [?k] s = Inr s' \<and> 0.125 \<le> bh_speed_mult s' \<and> 0 < bh_dt s')"
    by blast
  have i: "0.125 \<le> bh_speed_mult ?i"
    by (simp add: bh_init_def)
  have k: "handle_event ?k ?i = Inr (?i\<lparr>bh_speed_mult := 0.5, bh_dt := 1 / 120\<rparr>)"
    by (simp add: bh_init_def FPS_def Let_def)
  from i k speed_multiplier_clamped [of ?i ?k "?i\<lparr>bh_speed_mult := 0.5, bh_dt := 1 / 120\<rparr>"]
  have ev: "0.125 \<le> bh_speed_mult (?i\<lparr>bh_speed_mult := 0.5, bh_dt := 1 / 120\<rparr>)"
    by blast
  have er: "e_reachable (change_speed 0.9 (e_init []))"
    by (intro e_reachable.speed e_reachable.init)
  with speed_multiplier_clamped [of _ _ _ _ _ _ "change_speed 0.9 (e_init [])"]
  have e: "0.1 \<le> e_speed (change_speed 0.9 (e_init []))
    \<and> 0 < e_dt (change_speed 0.9 (e_init [])) * e_speed (change_speed 0.9 (e_init []))"
    by blast
  show ?thesis
    using bh i k ev er e by (intro conjI) blast+
qed

text \<open>
  Where the generator is read: one spawned particle of the cloud takes six outputs, and an
  event that is neither the key \<open>r\<close> nor a mouse release leaves the generator as it was.
\<close>

lemma spawn_one_random:
  assumes "spawn_one cx cy a b s = Inr s'"
  shows "bh_random s' = (\<lambda>i. bh_random s (i + 6))"
  using assms
  by (auto simp add: spawn_one_def uniform_def add_particle_def Let_def split_beta
      numeral_eq_Suc split: if_splits)

lemma keydown_random:
  assumes "keydown k shift s = Inr s'" "k \<noteq> K_r"
  shows "bh_random s' = bh_random s"
  using assms by (cases k) (auto simp add: Let_def step_timing)

lemma handle_event_random:
  assumes "handle_event ev s = Inr s'" "\<forall>shift. ev \<noteq> KEYDOWN K_r shift"
    "\<forall>pos. ev \<noteq> MOUSEBUTTONUP pos"
  shows "bh_random s' = bh_random s"
proof (cases ev)
  case (KEYDOWN k shift)
  with assms keydown_random [of k shift s s'] show ?thesis
    by auto
qed (use assms in auto)

lemma loop_frame: "loop t = Inr t' \<Longrightarrow> t' = t\<lparr>e_particles := e_particles t'\<rparr>"
  by (auto simp add: loop_def split: if_splits sum.splits)

text \<open>
  C10. One tick is a function of the particle store, the parameters and the time step. In
  bh.py two states with the same particles, mass, time step, window size and trail length
  give the same particles after \<open>step\<close>, whatever their other fields and their generator
  are; \<open>step\<close> changes the particles only, and neither reads nor advances the generator.
  Among the events only the key \<open>r\<close> and a mouse release, which spawn particles, can advance
  it. In e.py two states with the same particles, run flag and effective step
  \<open>dt * speed\<close> give the same result of \<open>_loop\<close> (the same particles or the same error),
  and \<open>_loop\<close> changes the particles only.
\<close>

theorem tick_deterministic:
  "(bh_particles s1 = bh_particles s2 \<and> bh_M s1 = bh_M s2 \<and> bh_dt s1 = bh_dt s2
      \<and> bh_width s1 = bh_width s2 \<and> bh_height s1 = bh_height s2
      \<and> bh_trail_length s1 = bh_trail_length s2 \<longrightarrow>
      bh_particles (step s1) = bh_particles (step s2))
   \<and> step s = s\<lparr>bh_particles := bh_particles (step s)\<rparr>
   \<and> bh_random (step s) = bh_random s
   \<and> step (s\<lparr>bh_random := g\<rparr>) = (step s)\<lparr>bh_random := g\<rparr>
   \<and> (handle_event ev s = Inr s' \<and> (\<forall>shift. ev \<noteq> KEYDOWN K_r shift)
        \<and> (\<forall>pos. ev \<noteq> MOUSEBUTTONUP pos) \<longrightarrow> bh_random s' = bh_random s)
   \<and> (e_particles t1 = e_particles t2 \<and> e_running t1 = e_running t2
        \<and> e_dt t1 * e_speed t1 = e_dt t2 * e_speed t2 \<longrightarrow>
      map_sum id e_particles (loop t1) = map_sum id e_particles (loop t2))
   \<and> (loop t = Inr t' \<longrightarrow> t' = t\<lparr>e_particles := e_particles t'\<rparr>)"
proof -
  have a: "bh_particles s1 = bh_particles s2 \<and> bh_M s1 = bh_M s2 \<and> bh_dt s1 = bh_dt s2
      \<and> bh_width s1 = bh_width s2 \<and> bh_height s1 = bh_height s2
      \<and> bh_trail_length s1 = bh_trail_length s2 \<longrightarrow>
      bh_particles (step s1) = bh_particles (step s2)"
    using step_depends [of s1 s2] by blast
  have b: "step s = s\<lparr>bh_particles := bh_particles (step s)\<rparr>"
    by (rule step_frame)
  have c: "bh_random (step s) = bh_random s"
    by (rule step_timing)
  have same: "bh_particles (step (s\<lparr>bh_random := g\<rparr>)) = bh_particles (step s)"
    by (rule step_depends) simp_all
  have "step (s\<lparr>bh_random := g\<rparr>)
      = s\<lparr>bh_random := g, bh_particles := bh_particles (step (s\<lparr>bh_random := g\<rparr>))\<rparr>"
    by (rule step_frame)
  also have "\<dots> = s\<lparr>bh_random := g, bh_particles := bh_particles (step s)\<rparr>"
    by (simp only: same)
  also have "\<dots> = (s\<lparr>bh_particles := bh_particles (step s)\<rparr>)\<lparr>bh_random := g\<rparr>"
    by simp
  also have "\<dots> = (step s)\<lparr>bh_random := g\<rparr>"
    using step_frame [of s] by simp
  finally have d: "step (s\<lparr>bh_random := g\<rparr>) = (step s)\<lparr>bh_random := g\<rparr>" .
  have e: "handle_event ev s = Inr s' \<and> (\<forall>shift. ev \<noteq> KEYDOWN K_r shift)
        \<and> (\<forall>pos. ev \<noteq> MOUSEBUTTONUP pos) \<longrightarrow> bh_random s' = bh_random s"
    using handle_event_random [of ev s s'] by blast
  have f: "e_particles t1 = e_particles t2 \<and> e_running t1 = e_running t2
        \<and> e_dt t1 * e_speed t1 = e_dt t2 * e_speed t2 \<longrightarrow>
      map_sum id e_particles (loop t1) = map_sum id e_particles (loop t2)"
    by (auto simp add: loop_def split: sum.splits)
  have g: "loop t = Inr t' \<longrightarrow> t' = t\<lparr>e_particles := e_particles t'\<rparr>"
    using loop_frame [of t t'] by blast
  show ?thesis
    using a b c d e f g by (intro conjI)
qed

text \<open>
  A tracer at the centre in two states that differ in the pause flag and the generator;
  the space key, which leaves the generator alone; the scenario's first particle at speeds
  1 and 0.5 with steps 0.016 and 0.032.
\<close>

theorem tick_deterministic_witness:
  "bh_particles (step (add_particle (bh_init (\<lambda>i. 0)) 500 350 3 6))
     = bh_particles (step ((add_particle (bh_init (\<lambda>i. 0)) 500 350 3 6)
         \<lparr>bh_paused := True, bh_random := (\<lambda>i. 1 / 2)\<rparr>))
   \<and> handle_event (KEYDOWN K_SPACE False) (bh_init (\<lambda>i. 1 / 2))
       = Inr ((bh_init (\<lambda>i. 1 / 2))\<lparr>bh_paused := True\<rparr>)
   \<and> bh_random ((bh_init (\<lambda>i. 1 / 2))\<lparr>bh_paused := True\<rparr>) = bh_random (bh_init (\<lambda>i. 1 / 2))
   \<and> map_sum id e_particles (loop (e_init [scenario_a]))
     = map_sum id e_particles (loop ((e_init [scenario_a])\<lparr>e_speed := 0.5, e_dt := 0.032\<rparr>))
   \<and> (\<exists>t'. loop (e_init [scenario_a]) = Inr t'
        \<and> t' = (e_init [scenario_a])\<lparr>e_particles := e_particles t'\<rparr>)"
proof -
  let ?s1 = "add_particle (bh_init (\<lambda>i. 0)) 500 350 3 6"
  let ?s2 = "?s1\<lparr>bh_paused := True, bh_random := (\<lambda>i. 1 / 2)\<rparr>"
  let ?i = "bh_init (\<lambda>i. 1 / 2)"
  let ?k = "KEYDOWN K_SPACE False"
  let ?t1 = "e_init [scenario_a]"
  let ?t2 = "?t1\<lparr>e_speed := 0.5, e_dt := 0.032\<rparr>"
  have agree: "bh_particles ?s1 = bh_particles ?s2 \<and> bh_M ?s1 = bh_M ?s2
      \<and> bh_dt ?s1 = bh_dt ?s2 \<and> bh_width ?s1 = bh_width ?s2 \<and> bh_height ?s1 = bh_height ?s2
      \<and> bh_trail_length ?s1 = bh_trail_length ?s2"
    by (simp add: add_particle_def)
  have tick: "bh_particles (step ?s1) = bh_particles (step ?s2)"
    using tick_deterministic [of ?s1 ?s2] agree by blast
  have k: "handle_event ?k ?i = Inr (?i\<lparr>bh_paused := True\<rparr>)"
    by (simp add: bh_init_def)
  have other: "(\<forall>shift. ?k \<noteq> KEYDOWN K_r shift) \<and> (\<forall>pos. ?k \<noteq> MOUSEBUTTONUP pos)"
    by simp
  have gen: "bh_random (?i\<lparr>bh_paused := True\<rparr>) = bh_random ?i"
    using tick_deterministic [of _ _ ?i _ ?k "?i\<lparr>bh_paused := True\<rparr>"] k other by blast
  have same: "e_particles ?t1 = e_particles ?t2 \<and> e_running ?t1 = e_running ?t2
      \<and> e_dt ?t1 * e_speed ?t1 = e_dt ?t2 * e_speed ?t2"
    by (simp add: e_init_def)
  have box: "map_sum id e_particles (loop ?t1) = map_sum id e_particles (loop ?t2)"
    using tick_deterministic [of _ _ _ _ _ _ ?t1 ?t2] same by blast
  obtain t' where l: "loop ?t1 = Inr t'"
    by (simp add: loop_def e_step_def resolve_collisions_single e_init_def)
  with tick_deterministic [of _ _ _ _ _ _ _ _ ?t1 t']
  have "t' = ?t1\<lparr>e_particles := e_particles t'\<rparr>"
    by blast
  with l have frame: "\<exists>t'. loop ?t1 = Inr t' \<and> t' = ?t1\<lparr>e_particles := e_particles t'\<rparr>"
    by blast
  show ?thesis
    using tick k gen box frame by (intro conjI)
qed

end
